theory Spec2Isabelle
  imports Main "HOL-Library.Multiset" "HOL-Library.Sublist"
begin

section \<open>Python values and built-ins used by the program\<close>

text \<open>
  Strings are lists of characters. The program's patterns and literals are ASCII, and a
  pattern of the program never matches a character outside ASCII, so a string read as
  UTF-8 bytes behaves under these patterns as the Python string does.

  A name that begins with an underscore in the source is written without the underscore,
  a method with the name of its class in front, and a name that is a constant of HOL with
  a prime.

  Exceptions are values of \<open>error\<close>, one constructor for each exception the modelled code can
  raise: \<open>StopIteration\<close> from \<open>next\<close>, \<open>KeyError\<close> from a missing dictionary key or archive
  member, \<open>TypeError\<close>, \<open>ValueError\<close> from a conversion, and the two \<open>ValueError\<close>s that
  the program raises itself: \<open>BadTripId\<close> (raised by \<open>_load_trips\<close>, carrying the trip
  identifier of its message) and \<open>PagesOverflow\<close> (raised by \<open>fetch_delays\<close>).
  \<open>SchemaError\<close> is not a Python exception: the fact parsers store a JSON value in a dataclass
  field without checking the field's declared type, and the model, whose fields are typed,
  stops with \<open>SchemaError\<close> where the value is of another type.
\<close>

datatype error =
    StopIteration
  | KeyError string
  | TypeError
  | ValueError string
  | BadTripId string
  | PagesOverflow
  | SchemaError

definition is_digit :: "char \<Rightarrow> bool" where
  "is_digit c = (c \<in> set ''0123456789'')"

definition digit_val :: "char \<Rightarrow> nat" where
  "digit_val c = of_char c - 48"

text \<open>The number denoted by a run of decimal digits, most significant digit first.\<close>

definition dec :: "string \<Rightarrow> nat" where
  "dec ds = foldl (\<lambda>n c. 10 * n + digit_val c) 0 ds"

text \<open>
  Python's \<open>int(s)\<close> for a string: white space is stripped from both ends, a sign may follow,
  then decimal digits, which single underscores may separate. Anything else raises
  \<open>ValueError\<close>. Python also accepts decimal digits and white space outside ASCII, which
  the model does not represent. Python's integers are unbounded; the interpreter's
  configurable limit on the length of a converted digit string is a resource limit that is
  not modelled.
\<close>

definition py_isspace :: "char \<Rightarrow> bool" where
  "py_isspace c = (c \<in> set [CHR 0x09, CHR 0x0A, CHR 0x0B, CHR 0x0C, CHR 0x0D,
                              CHR 0x1C, CHR 0x1D, CHR 0x1E, CHR 0x1F, CHR 0x20])"

definition strip :: "string \<Rightarrow> string" where
  "strip s = rev (dropWhile py_isspace (rev (dropWhile py_isspace s)))"

fun digit_groups :: "string \<Rightarrow> string option" where
  "digit_groups [] = None"
| "digit_groups [c] = (if is_digit c then Some [c] else None)"
| "digit_groups (c # u # cs) =
     (if is_digit c
      then map_option ((#) c) (digit_groups (if u = CHR ''_'' then cs else u # cs))
      else None)"

definition py_int :: "string \<Rightarrow> error + int" where
  "py_int s =
     (let t = strip s;
          neg = (t \<noteq> [] \<and> hd t = CHR ''-'');
          body = (if t \<noteq> [] \<and> (hd t = CHR ''-'' \<or> hd t = CHR ''+'') then tl t else t)
      in case digit_groups body of
           None \<Rightarrow> Inl (ValueError s)
         | Some ds \<Rightarrow> Inr (if neg then - int (dec ds) else int (dec ds)))"

section \<open>Trip identity codec (realtime/schedules.py)\<close>

text \<open>
  \<open>_extract_start_date_offset\<close> searches the pattern \<open>([+-][0-9]+)D$\<close>. \<open>offset_match_at\<close>
  is an attempt to match at the start of the given text: a sign, the longest run of digits
  (there must be one), the letter D, and then \<open>$\<close>, which in Python holds at the end of the
  string and also just before a newline that is the string's last character. It returns
  group 1. \<open>offset_search\<close> is \<open>re.search\<close>: the attempts go from left to right and the first
  that matches wins.
\<close>

definition offset_match_at :: "string \<Rightarrow> string option" where
  "offset_match_at s =
     (case s of
        [] \<Rightarrow> None
      | c # cs \<Rightarrow>
          if c = CHR ''+'' \<or> c = CHR ''-''
          then (let ds = takeWhile is_digit cs; rest = dropWhile is_digit cs
                in if ds \<noteq> [] \<and> (rest = ''D'' \<or> rest = [CHR ''D'', CHR 0x0A])
                   then Some (c # ds) else None)
          else None)"

fun offset_search :: "string \<Rightarrow> string option" where
  "offset_search [] = None"
| "offset_search (c # cs) =
     (case offset_match_at (c # cs) of
        Some g \<Rightarrow> Some g
      | None \<Rightarrow> offset_search cs)"

definition extract_start_date_offset :: "string \<Rightarrow> error + int" where
  "extract_start_date_offset service_id =
     (case offset_search service_id of
        Some g \<Rightarrow> py_int g
      | None \<Rightarrow> Inr 0)"

text \<open>
  \<open>_extract_schedule_order_ids\<close> searches \<open>^([0-9]+)_([0-9]+)\<close>; the anchor leaves one attempt,
  at the start of the string. Both runs of digits are the longest ones. The result
  \<open>(None, None)\<close> of the source is \<open>None\<close> here.
\<close>

definition extract_schedule_order_ids :: "string \<Rightarrow> error + (int \<times> int) option" where
  "extract_schedule_order_ids trip_id =
     (let d1 = takeWhile is_digit trip_id; r1 = dropWhile is_digit trip_id
      in if d1 \<noteq> [] \<and> r1 \<noteq> [] \<and> hd r1 = CHR ''_'' \<and> takeWhile is_digit (tl r1) \<noteq> []
         then (case py_int d1 of
                 Inl e \<Rightarrow> Inl e
               | Inr a \<Rightarrow> (case py_int (takeWhile is_digit (tl r1)) of
                             Inl e \<Rightarrow> Inl e
                           | Inr b \<Rightarrow> Inr (Some (a, b))))
         else Inr None)"

section \<open>Messages of the realtime feed (gtfs_realtime_pb2)\<close>

text \<open>
  Modelled from the spec: the message classes of the generated module \<open>gtfs_realtime_pb2\<close>,
  which the specification takes as given (a library that builds a feed message from typed
  entities). A message is the record of the fields that the program sets; a field that is
  set by assignment after the message was built is optional, and \<open>None\<close> while unset. A
  repeated field is a list. \<open>AlertMessage\<close> is the message class \<open>Alert\<close>, and a translation is
  the pair of its text and language.
\<close>

datatype StopTimeUpdate_ScheduleRelationship = StopTimeUpdate_SCHEDULED | StopTimeUpdate_SKIPPED

datatype TripDescriptor_ScheduleRelationship = TripDescriptor_SCHEDULED

datatype Incrementality = FULL_DATASET

type_synonym TranslatedString = "(string \<times> string) list"

record StopTimeEvent =
  time :: int
  uncertainty :: int

record StopTimeUpdate =
  stop_sequence :: int
  stop_id :: string
  arrival :: "StopTimeEvent option"
  departure :: "StopTimeEvent option"
  schedule_relationship :: "StopTimeUpdate_ScheduleRelationship option"

record TripDescriptor =
  trip_id :: string
  schedule_relationship :: TripDescriptor_ScheduleRelationship
  start_date :: string

record TripUpdate =
  trip :: TripDescriptor
  stop_time_update :: "StopTimeUpdate list"

record EntitySelector =
  trip :: TripDescriptor

record AlertMessage =
  header_text :: TranslatedString
  description_text :: TranslatedString
  informed_entity :: "EntitySelector list"

record FeedEntity =
  id' :: string
  alert :: "AlertMessage option"
  trip_update :: "TripUpdate option"

record FeedHeader =
  gtfs_realtime_version :: string
  incrementality :: Incrementality
  timestamp :: int

record FeedMessage =
  header :: FeedHeader
  entity :: "FeedEntity list"

section \<open>Schedule index (realtime/schedules.py)\<close>

text \<open>
  A raised exception ends the computation: \<open>bind_err\<close> passes the first error on, and
  \<open>for_each\<close> is a \<open>for\<close> loop whose body may raise, threading the state that the body
  updates.
\<close>

definition bind_err :: "error + 'a \<Rightarrow> ('a \<Rightarrow> error + 'b) \<Rightarrow> error + 'b" where
  "bind_err m f = (case m of Inl e \<Rightarrow> Inl e | Inr x \<Rightarrow> f x)"

fun for_each :: "('s \<Rightarrow> 'r \<Rightarrow> error + 's) \<Rightarrow> 'r list \<Rightarrow> 's \<Rightarrow> error + 's" where
  "for_each body [] s = Inr s"
| "for_each body (r # rs) s =
     (case body s r of Inl e \<Rightarrow> Inl e | Inr s' \<Rightarrow> for_each body rs s')"

text \<open>
  A dictionary is a map; \<open>d[k]\<close> raises \<open>KeyError\<close> on a missing key (the error carries the
  name of the column, archive member or dictionary), \<open>d.get(k, [])\<close> does not.
\<close>

definition getitem :: "('k \<rightharpoonup> 'v) \<Rightarrow> 'k \<Rightarrow> string \<Rightarrow> error + 'v" where
  "getitem d k name = (case d k of None \<Rightarrow> Inl (KeyError name) | Some v \<Rightarrow> Inr v)"

definition get_list :: "('k \<rightharpoonup> 'v list) \<Rightarrow> 'k \<Rightarrow> 'v list" where
  "get_list d k = (case d k of None \<Rightarrow> [] | Some vs \<Rightarrow> vs)"

text \<open>
  A table of the archive is the list of rows that \<open>csv.DictReader\<close> yields, each row a
  dictionary from column names to strings. A row that is shorter than the header, whose
  missing cells the reader fills with \<open>None\<close>, is not represented. The archive maps member
  names to tables, and opening a member that it does not have raises \<open>KeyError\<close>.

  \<open>Date\<close> and \<open>BoundedDateRange\<close> come from the library \<open>impuls\<close>. A date is its day number, so
  that \<open>add_days\<close> is addition; a bounded range holds its two ends and contains the days
  between them, both included. The library's parser \<open>Date.from_ymd_str\<close> is a parameter of
  the loaders. The library's bound on the years of a date is not modelled.
\<close>

type_synonym row = "string \<rightharpoonup> string"
type_synonym archive = "string \<rightharpoonup> row list"

type_synonym Date = int

definition add_days :: "Date \<Rightarrow> int \<Rightarrow> Date" where
  "add_days d n = d + n"

record BoundedDateRange =
  range_start :: Date
  range_end :: Date

definition contains :: "BoundedDateRange \<Rightarrow> Date \<Rightarrow> bool" where
  "contains r d = (range_start r \<le> d \<and> d \<le> range_end r)"

text \<open>
  \<open>TripDate\<close> (realtime/tools.py) is used with a string identifier and a library date by the
  schedule index, and with an integer identifier and a \<open>datetime.date\<close> by the facts: Python
  does not check the declared field types, so the record is polymorphic in both.
\<close>

record ('i, 'd) TripDate =
  trip_id :: 'i
  start_date :: 'd

record OrderKey =
  schedule_id :: int
  order_id :: int
  operating_date :: Date

record StopTime =
  trip :: "(string, Date) TripDate"
  stop_sequence :: int
  stop_id :: string

record Trips =
  all :: "(string, Date) TripDate list"
  by_order_number :: "int \<rightharpoonup> StopTime"

text \<open>The named tuples \<open>DatePair\<close> and \<open>TripKeyPair\<close> are pairs, unpacked as the loops do.\<close>

type_synonym DatePair = "Date \<times> Date"
type_synonym TripKeyPair = "(string, Date) TripDate \<times> OrderKey"

record Schedules =
  by_order :: "OrderKey \<rightharpoonup> Trips"
  valid_operating_dates :: BoundedDateRange

definition load_feed_dates :: "(string \<Rightarrow> error + Date) \<Rightarrow> row list \<Rightarrow> error + BoundedDateRange" where
  "load_feed_dates from_ymd_str f =
     (case f of
        [] \<Rightarrow> Inl StopIteration
      | row # _ \<Rightarrow>
          bind_err (getitem row ''feed_start_date'' ''feed_start_date'') (\<lambda>s.
          bind_err (from_ymd_str s) (\<lambda>d.
          bind_err (getitem row ''feed_end_date'' ''feed_end_date'') (\<lambda>e.
          bind_err (from_ymd_str e) (\<lambda>end_date.
          Inr \<lparr>range_start = add_days d (- 1), range_end = end_date\<rparr>)))))"

definition load_services_row ::
  "(string \<Rightarrow> error + Date) \<Rightarrow> BoundedDateRange \<Rightarrow> (string \<rightharpoonup> DatePair list) \<Rightarrow> row
     \<Rightarrow> error + (string \<rightharpoonup> DatePair list)" where
  "load_services_row from_ymd_str range' services row =
     bind_err (getitem row ''service_id'' ''service_id'') (\<lambda>service_id.
     bind_err (extract_start_date_offset service_id) (\<lambda>start_date_offset.
     bind_err (getitem row ''date'' ''date'') (\<lambda>date_str.
     bind_err (from_ymd_str date_str) (\<lambda>start_date.
       let operating_date = add_days start_date (- start_date_offset)
       in if contains range' operating_date
          then Inr (services(service_id \<mapsto>
                      get_list services service_id @ [(operating_date, start_date)]))
          else Inr services))))"

definition load_services ::
  "(string \<Rightarrow> error + Date) \<Rightarrow> row list \<Rightarrow> BoundedDateRange
     \<Rightarrow> error + (string \<rightharpoonup> DatePair list)" where
  "load_services from_ymd_str f range' =
     for_each (load_services_row from_ymd_str range') f Map.empty"

text \<open>
  The body of the inner loop of \<open>_load_trips\<close>. A \<open>Trips\<close> object is always true, so the
  test \<open>if t := by_order.get(key)\<close> asks whether the key is present.
\<close>

definition register_trip ::
  "string \<Rightarrow> int \<Rightarrow> int \<Rightarrow> (OrderKey \<rightharpoonup> Trips) \<times> (string \<rightharpoonup> TripKeyPair list) \<Rightarrow> DatePair
     \<Rightarrow> (OrderKey \<rightharpoonup> Trips) \<times> (string \<rightharpoonup> TripKeyPair list)" where
  "register_trip tid sid oid st p =
     (let key = \<lparr>schedule_id = sid, order_id = oid, operating_date = fst p\<rparr>;
          trip_date = \<lparr>trip_id = tid, start_date = snd p\<rparr>;
          trip_id_to_keys = (snd st)(tid \<mapsto> get_list (snd st) tid @ [(trip_date, key)])
      in case fst st key of
           Some t \<Rightarrow> ((fst st)(key \<mapsto> t\<lparr>all := all t @ [trip_date]\<rparr>), trip_id_to_keys)
         | None \<Rightarrow>
             ((fst st)(key \<mapsto> \<lparr>all = [trip_date], by_order_number = Map.empty\<rparr>),
              trip_id_to_keys))"

definition load_trips_row ::
  "(string \<rightharpoonup> DatePair list) \<Rightarrow> (OrderKey \<rightharpoonup> Trips) \<times> (string \<rightharpoonup> TripKeyPair list) \<Rightarrow> row
     \<Rightarrow> error + (OrderKey \<rightharpoonup> Trips) \<times> (string \<rightharpoonup> TripKeyPair list)" where
  "load_trips_row services st row =
     bind_err (getitem row ''trip_id'' ''trip_id'') (\<lambda>tid.
     bind_err (extract_schedule_order_ids tid) (\<lambda>ids.
       case ids of
         None \<Rightarrow> Inl (BadTripId tid)
       | Some (sid, oid) \<Rightarrow>
           bind_err (getitem row ''service_id'' ''service_id'') (\<lambda>service_id.
           Inr (foldl (register_trip tid sid oid) st (get_list services service_id)))))"

definition load_trips ::
  "row list \<Rightarrow> (string \<rightharpoonup> DatePair list)
     \<Rightarrow> error + (OrderKey \<rightharpoonup> Trips) \<times> (string \<rightharpoonup> TripKeyPair list)" where
  "load_trips f services = for_each (load_trips_row services) f (Map.empty, Map.empty)"

text \<open>
  \<open>_load_stop_times\<close> updates the \<open>Trips\<close> objects of \<open>by_order\<close> in place and returns nothing;
  here it returns the updated dictionary. \<open>store_stop_time\<close> is the body of its inner loop.
\<close>

definition store_stop_time :: "row \<Rightarrow> (OrderKey \<rightharpoonup> Trips) \<Rightarrow> TripKeyPair \<Rightarrow> error + (OrderKey \<rightharpoonup> Trips)" where
  "store_stop_time row by_order_map p =
     bind_err (getitem row ''stop_sequence'' ''stop_sequence'') (\<lambda>seq_str.
     bind_err (py_int seq_str) (\<lambda>seq.
     bind_err (getitem row ''stop_id'' ''stop_id'') (\<lambda>sid.
     bind_err (getitem row ''plk_order'' ''plk_order'') (\<lambda>order_str.
     bind_err (py_int order_str) (\<lambda>order_number.
     bind_err (getitem by_order_map (snd p) ''by_order'') (\<lambda>t.
       Inr (by_order_map(snd p \<mapsto>
              t\<lparr>by_order_number := (by_order_number t)(order_number \<mapsto>
                   \<lparr>trip = fst p, stop_sequence = seq, stop_id = sid\<rparr>)\<rparr>))))))))"

definition load_stop_times_row ::
  "(string \<rightharpoonup> TripKeyPair list) \<Rightarrow> (OrderKey \<rightharpoonup> Trips) \<Rightarrow> row \<Rightarrow> error + (OrderKey \<rightharpoonup> Trips)" where
  "load_stop_times_row trip_id_to_keys by_order_map row =
     bind_err (getitem row ''trip_id'' ''trip_id'') (\<lambda>tid.
     for_each (store_stop_time row) (get_list trip_id_to_keys tid) by_order_map)"

definition load_stop_times ::
  "row list \<Rightarrow> (OrderKey \<rightharpoonup> Trips) \<Rightarrow> (string \<rightharpoonup> TripKeyPair list) \<Rightarrow> error + (OrderKey \<rightharpoonup> Trips)" where
  "load_stop_times f by_order_map trip_id_to_keys =
     for_each (load_stop_times_row trip_id_to_keys) f by_order_map"

definition open_text :: "archive \<Rightarrow> string \<Rightarrow> error + row list" where
  "open_text arch fname = getitem arch fname fname"

definition load_from_gtfs :: "(string \<Rightarrow> error + Date) \<Rightarrow> archive \<Rightarrow> error + Schedules" where
  "load_from_gtfs from_ymd_str arch =
     bind_err (open_text arch ''feed_info.txt'') (\<lambda>f1.
     bind_err (load_feed_dates from_ymd_str f1) (\<lambda>dates.
     bind_err (open_text arch ''calendar_dates.txt'') (\<lambda>f2.
     bind_err (load_services from_ymd_str f2 dates) (\<lambda>services.
     bind_err (open_text arch ''trips.txt'') (\<lambda>f3.
     bind_err (load_trips f3 services) (\<lambda>st.
     bind_err (open_text arch ''stop_times.txt'') (\<lambda>f4.
     bind_err (load_stop_times f4 (fst st) (snd st)) (\<lambda>by_order_map.
     Inr \<lparr>by_order = by_order_map, valid_operating_dates = dates\<rparr>))))))))"

section \<open>Realtime facts (realtime/tools.py, fact.py, delays.py, alerts.py)\<close>

subsection \<open>Values of the standard library\<close>

text \<open>
  A parsed JSON document. An object is the list of the items of the dictionary that
  \<open>r.json()\<close> returns. No modelled code reads a fractional number, and numbers are integers.
\<close>

datatype json =
    JNull
  | JBool bool
  | JInt int
  | JStr string
  | JList "json list"
  | JObj "(string \<times> json) list"

text \<open>\<open>d[k]\<close> with a string key: only a dictionary can be subscripted by a string.\<close>

definition json_getitem :: "json \<Rightarrow> string \<Rightarrow> error + json" where
  "json_getitem d k =
     (case d of
        JObj items \<Rightarrow> getitem (map_of items) k k
      | _ \<Rightarrow> Inl TypeError)"

text \<open>The truth value of a Python object, as \<open>if x\<close> and \<open>x or y\<close> take it.\<close>

fun truthy :: "json \<Rightarrow> bool" where
  "truthy JNull = False"
| "truthy (JBool b) = b"
| "truthy (JInt n) = (n \<noteq> 0)"
| "truthy (JStr s) = (s \<noteq> [])"
| "truthy (JList xs) = (xs \<noteq> [])"
| "truthy (JObj items) = (items \<noteq> [])"

text \<open>
  What a \<open>for\<close> clause iterates over: the elements of a list, the characters of a string, the
  keys of a dictionary; the other values are not iterable.
\<close>

fun json_iter :: "json \<Rightarrow> error + json list" where
  "json_iter (JList xs) = Inr xs"
| "json_iter (JStr s) = Inr (map (\<lambda>c. JStr [c]) s)"
| "json_iter (JObj items) = Inr (map (\<lambda>kv. JStr (fst kv)) items)"
| "json_iter _ = Inl TypeError"

text \<open>A list comprehension whose element expression may raise.\<close>

fun map_err :: "('a \<Rightarrow> error + 'b) \<Rightarrow> 'a list \<Rightarrow> error + 'b list" where
  "map_err f [] = Inr []"
| "map_err f (x # xs) =
     (case f x of
        Inl e \<Rightarrow> Inl e
      | Inr y \<Rightarrow> (case map_err f xs of Inl e \<Rightarrow> Inl e | Inr ys \<Rightarrow> Inr (y # ys)))"

text \<open>The string argument that \<open>fromisoformat\<close> and slicing ask for.\<close>

definition as_str :: "json \<Rightarrow> error + string" where
  "as_str v = (case v of JStr s \<Rightarrow> Inr s | _ \<Rightarrow> Inl TypeError)"

definition as_int :: "json \<Rightarrow> error + int" where
  "as_int v = (case v of JInt n \<Rightarrow> Inr n | _ \<Rightarrow> Inl SchemaError)"

text \<open>\<open>x or False\<close> for a field declared \<open>bool\<close>, and \<open>x or ""\<close> for a field declared \<open>str\<close>.\<close>

definition or_False :: "json \<Rightarrow> error + bool" where
  "or_False v = (case v of JNull \<Rightarrow> Inr False | JBool b \<Rightarrow> Inr b | _ \<Rightarrow> Inl SchemaError)"

definition or_empty :: "json \<Rightarrow> error + string" where
  "or_empty v = (case v of JNull \<Rightarrow> Inr [] | JStr s \<Rightarrow> Inr s | _ \<Rightarrow> Inl SchemaError)"

text \<open>\<open>str(n)\<close> for an integer: its decimal digits, after a minus sign when it is negative.\<close>

fun nat_digits :: "nat \<Rightarrow> string" where
  "nat_digits n =
     (if n < 10 then [char_of (48 + n)]
      else nat_digits (n div 10) @ [char_of (48 + n mod 10)])"

declare nat_digits.simps [simp del]

definition py_str_int :: "int \<Rightarrow> string" where
  "py_str_int i = (if i < 0 then CHR ''-'' # nat_digits (nat (- i)) else nat_digits (nat i))"

text \<open>
  \<open>datetime.date\<close>: year, month and day. \<open>isoformat\<close> is \<open>YYYY-MM-DD\<close> and
  \<open>strftime("%Y%m%d")\<close> is \<open>YYYYMMDD\<close>, the numbers padded with zeros (some platforms do
  not pad the year of \<open>strftime\<close> before the year 1000; the model does). Python builds
  dates with a year from 1 to 9999, a month from 1 to 12 and a day from 1 to 31 only,
  which \<open>valid_date\<close> says.
\<close>

record date =
  year :: nat
  month :: nat
  day :: nat

definition valid_date :: "date \<Rightarrow> bool" where
  "valid_date d = (1 \<le> year d \<and> year d \<le> 9999 \<and> 1 \<le> month d \<and> month d \<le> 12
                   \<and> 1 \<le> day d \<and> day d \<le> 31)"

definition zero_pad :: "nat \<Rightarrow> string \<Rightarrow> string" where
  "zero_pad w s = replicate (w - length s) CHR ''0'' @ s"

definition date_isoformat :: "date \<Rightarrow> string" where
  "date_isoformat d =
     zero_pad 4 (nat_digits (year d)) @ ''-'' @ zero_pad 2 (nat_digits (month d)) @ ''-''
       @ zero_pad 2 (nat_digits (day d))"

definition date_strftime_Ymd :: "date \<Rightarrow> string" where
  "date_strftime_Ymd d =
     zero_pad 4 (nat_digits (year d)) @ zero_pad 2 (nat_digits (month d))
       @ zero_pad 2 (nat_digits (day d))"

text \<open>
  \<open>datetime.datetime\<close>. A naive value is its reading on the calendar, an aware one the
  instant it denotes together with its offset from UTC, both counted in microseconds.
  Python orders two naive values by their readings and two aware values by their
  instants, and raises \<open>TypeError\<close> when asked to order a naive and an aware one.
  \<open>max(a, b)\<close> returns \<open>b\<close> when \<open>b > a\<close> and \<open>a\<close> otherwise.

  The functions of the library that parse and print these values are parameters,
  collected in \<open>stdlib\<close>: \<open>date.fromisoformat\<close>, \<open>datetime.fromisoformat\<close>,
  \<open>datetime.isoformat()\<close>, \<open>datetime.isoformat(timespec="seconds")\<close>, and
  \<open>round(datetime.timestamp())\<close>, which goes through a floating-point number.
\<close>

datatype datetime = Naive int | Aware int int

fun datetime_gt :: "datetime \<Rightarrow> datetime \<Rightarrow> error + bool" where
  "datetime_gt (Naive a) (Naive b) = Inr (a > b)"
| "datetime_gt (Aware a _) (Aware b _) = Inr (a > b)"
| "datetime_gt _ _ = Inl TypeError"

definition py_max :: "datetime \<Rightarrow> datetime \<Rightarrow> error + datetime" where
  "py_max a b = bind_err (datetime_gt b a) (\<lambda>later. Inr (if later then b else a))"

record stdlib =
  date_fromisoformat :: "string \<Rightarrow> error + date"
  datetime_fromisoformat :: "string \<Rightarrow> error + datetime"
  datetime_isoformat :: "datetime \<Rightarrow> string"
  datetime_isoformat_seconds :: "datetime \<Rightarrow> string"
  round_timestamp :: "datetime \<Rightarrow> int"

subsection \<open>The dataclasses and their renderings\<close>

text \<open>
  Several classes share field names. An unqualified name is the field of the class
  declared last; the others are written with the name of their class.
\<close>

definition TripDate_parse :: "stdlib \<Rightarrow> json \<Rightarrow> json \<Rightarrow> error + (int, date) TripDate" where
  "TripDate_parse lib sid operating_date_str =
     bind_err (as_str operating_date_str) (\<lambda>s.
     bind_err (date_fromisoformat lib (take 10 s)) (\<lambda>d.
     bind_err (as_int sid) (\<lambda>i.
     Inr \<lparr>TripDate.trip_id = i, TripDate.start_date = d\<rparr>)))"

definition TripDate_as_json :: "(int, date) TripDate \<Rightarrow> json" where
  "TripDate_as_json td =
     JObj [(''trip_id'', JStr (py_str_int (TripDate.trip_id td))),
           (''start_date'', JStr (date_isoformat (TripDate.start_date td)))]"

definition TripDate_as_gtfs_rt :: "(int, date) TripDate \<Rightarrow> TripDescriptor" where
  "TripDate_as_gtfs_rt td =
     \<lparr>TripDescriptor.trip_id = py_str_int (TripDate.trip_id td),
      TripDescriptor.schedule_relationship = TripDescriptor_SCHEDULED,
      TripDescriptor.start_date = date_strftime_Ymd (TripDate.start_date td)\<rparr>"

definition as_translation :: "string \<Rightarrow> string \<Rightarrow> TranslatedString" where
  "as_translation x lang = [(x, lang)]"

record StopDelay =
  stop_id :: int
  stop_sequence :: int
  cancelled :: bool
  confirmed :: bool
  live_arrival :: datetime
  live_departure :: datetime

definition StopDelay_as_json :: "stdlib \<Rightarrow> StopDelay \<Rightarrow> json" where
  "StopDelay_as_json lib s =
     (if cancelled s
      then JObj [(''stop_id'', JStr (py_str_int (StopDelay.stop_id s))),
                 (''stop_sequence'', JInt (StopDelay.stop_sequence s)),
                 (''confirmed'', JBool (confirmed s)),
                 (''cancelled'', JBool True)]
      else JObj [(''stop_id'', JStr (py_str_int (StopDelay.stop_id s))),
                 (''stop_sequence'', JInt (StopDelay.stop_sequence s)),
                 (''confirmed'', JBool (confirmed s)),
                 (''cancelled'', JBool False),
                 (''arrival'', JStr (datetime_isoformat lib (live_arrival s))),
                 (''departure'', JStr (datetime_isoformat lib (live_departure s)))])"

definition StopDelay_as_gtfs_rt :: "stdlib \<Rightarrow> StopDelay \<Rightarrow> StopTimeUpdate" where
  "StopDelay_as_gtfs_rt lib s =
     (let u = \<lparr>StopTimeUpdate.stop_sequence = StopDelay.stop_sequence s,
               StopTimeUpdate.stop_id = py_str_int (StopDelay.stop_id s),
               arrival = None, departure = None,
               StopTimeUpdate.schedule_relationship = None\<rparr>
      in if cancelled s
         then u\<lparr>StopTimeUpdate.schedule_relationship := Some StopTimeUpdate_SKIPPED\<rparr>
         else (let uncertainty_value = (if confirmed s then 0 else 1)
               in u\<lparr>StopTimeUpdate.schedule_relationship := Some StopTimeUpdate_SCHEDULED,
                    arrival := Some \<lparr>time = round_timestamp lib (live_arrival s),
                                     uncertainty = uncertainty_value\<rparr>,
                    departure := Some \<lparr>time = round_timestamp lib (live_departure s),
                                       uncertainty = uncertainty_value\<rparr>\<rparr>))"

record TripDelay =
  trip :: "(int, date) TripDate"
  stops :: "StopDelay list"

definition TripDelay_as_json :: "stdlib \<Rightarrow> TripDelay \<Rightarrow> json" where
  "TripDelay_as_json lib t =
     JObj [(''type'', JStr ''delay''),
           (''id'', JStr (''D_'' @ date_isoformat (TripDate.start_date (TripDelay.trip t)) @ ''_''
                          @ py_str_int (TripDate.trip_id (TripDelay.trip t)))),
           (''trip'', TripDate_as_json (TripDelay.trip t)),
           (''stops'', JList (map (StopDelay_as_json lib) (stops t)))]"

definition TripDelay_as_gtfs_rt :: "stdlib \<Rightarrow> TripDelay \<Rightarrow> FeedEntity" where
  "TripDelay_as_gtfs_rt lib t =
     \<lparr>FeedEntity.id' = ''D_'' @ date_isoformat (TripDate.start_date (TripDelay.trip t)) @ ''_''
                         @ py_str_int (TripDate.trip_id (TripDelay.trip t)),
      alert = None,
      trip_update = Some \<lparr>TripUpdate.trip = TripDate_as_gtfs_rt (TripDelay.trip t),
                           stop_time_update = map (StopDelay_as_gtfs_rt lib) (stops t)\<rparr>\<rparr>"

record Alert =
  id' :: int
  title :: string
  description :: string
  trips :: "(int, date) TripDate list"

definition Alert_as_json :: "Alert \<Rightarrow> json" where
  "Alert_as_json a =
     JObj [(''type'', JStr ''alert''),
           (''id'', JStr (''A_'' @ py_str_int (Alert.id' a))),
           (''title'', JStr (title a)),
           (''description'', JStr (description a)),
           (''trips'', JList (map TripDate_as_json (trips a)))]"

definition Alert_as_gtfs_rt :: "Alert \<Rightarrow> FeedEntity" where
  "Alert_as_gtfs_rt a =
     \<lparr>FeedEntity.id' = ''A_'' @ py_str_int (Alert.id' a),
      alert = Some \<lparr>header_text = as_translation (title a) ''pl'',
                     description_text = as_translation (description a) ''pl'',
                     informed_entity =
                       map (\<lambda>i. \<lparr>EntitySelector.trip = TripDate_as_gtfs_rt i\<rparr>) (trips a)\<rparr>,
      trip_update = None\<rparr>"

text \<open>
  The protocol \<open>Fact\<close> has the two implementations \<open>Alert\<close> and \<open>TripDelay\<close>; a fact is one or
  the other, and its two methods dispatch on which.
\<close>

datatype Fact = AlertFact Alert | TripDelayFact TripDelay

fun Fact_as_json :: "stdlib \<Rightarrow> Fact \<Rightarrow> json" where
  "Fact_as_json lib (AlertFact a) = Alert_as_json a"
| "Fact_as_json lib (TripDelayFact t) = TripDelay_as_json lib t"

fun Fact_as_gtfs_rt :: "stdlib \<Rightarrow> Fact \<Rightarrow> FeedEntity" where
  "Fact_as_gtfs_rt lib (AlertFact a) = Alert_as_gtfs_rt a"
| "Fact_as_gtfs_rt lib (TripDelayFact t) = TripDelay_as_gtfs_rt lib t"

record FactContainer =
  timestamp :: datetime
  facts :: "Fact list"

definition merge :: "FactContainer \<Rightarrow> FactContainer \<Rightarrow> error + FactContainer" where
  "merge self other =
     bind_err (py_max (FactContainer.timestamp self) (FactContainer.timestamp other)) (\<lambda>t.
     Inr \<lparr>FactContainer.timestamp = t, facts = facts self @ facts other\<rparr>)"

definition FactContainer_as_json :: "stdlib \<Rightarrow> FactContainer \<Rightarrow> json" where
  "FactContainer_as_json lib c =
     JObj [(''timestamp'', JStr (datetime_isoformat_seconds lib (FactContainer.timestamp c))),
           (''facts'', JList (map (Fact_as_json lib) (facts c)))]"

definition FactContainer_as_gtfs_rt :: "stdlib \<Rightarrow> FactContainer \<Rightarrow> FeedMessage" where
  "FactContainer_as_gtfs_rt lib c =
     \<lparr>header = \<lparr>gtfs_realtime_version = ''2.0'', incrementality = FULL_DATASET,
                 FeedHeader.timestamp = round_timestamp lib (FactContainer.timestamp c)\<rparr>,
      entity = map (Fact_as_gtfs_rt lib) (facts c)\<rparr>"

subsection \<open>Parsing the operator's JSON\<close>

definition parse_stop_delay :: "stdlib \<Rightarrow> json \<Rightarrow> error + StopDelay" where
  "parse_stop_delay lib s =
     bind_err (json_getitem s ''id'') (\<lambda>v_id.
     bind_err (json_getitem s ''psn'') (\<lambda>v_psn.
     bind_err (json_getitem s ''cn'') (\<lambda>v_cn.
     bind_err (json_getitem s ''cf'') (\<lambda>v_cf.
     bind_err (json_getitem s ''aa'') (\<lambda>v_aa.
     bind_err (as_str v_aa) (\<lambda>s_aa.
     bind_err (datetime_fromisoformat lib s_aa) (\<lambda>aa.
     bind_err (json_getitem s ''ad'') (\<lambda>v_ad.
     bind_err (as_str v_ad) (\<lambda>s_ad.
     bind_err (datetime_fromisoformat lib s_ad) (\<lambda>ad.
     bind_err (as_int v_id) (\<lambda>i.
     bind_err (as_int v_psn) (\<lambda>psn.
     bind_err (or_False v_cn) (\<lambda>cn.
     bind_err (or_False v_cf) (\<lambda>cf.
     Inr \<lparr>StopDelay.stop_id = i, StopDelay.stop_sequence = psn, cancelled = cn,
          confirmed = cf, live_arrival = aa, live_departure = ad\<rparr>))))))))))))))"

definition parse_trip_delay :: "stdlib \<Rightarrow> json \<Rightarrow> error + TripDelay" where
  "parse_trip_delay lib d =
     bind_err (json_getitem d ''sid'') (\<lambda>sid.
     bind_err (json_getitem d ''od'') (\<lambda>od.
     bind_err (TripDate_parse lib sid od) (\<lambda>td.
     bind_err (json_getitem d ''st'') (\<lambda>st.
     bind_err (json_iter st) (\<lambda>rows.
     bind_err (map_err (parse_stop_delay lib) rows) (\<lambda>ss.
     Inr \<lparr>TripDelay.trip = td, stops = ss\<rparr>))))))"

text \<open>
  \<open>fetch_delays\<close> and \<open>fetch_alerts\<close> get a document over HTTP. \<open>response\<close> is what the
  request, \<open>raise_for_status\<close> and \<open>r.json()\<close> give: an error, or the parsed document.
\<close>

definition fetch_delays :: "stdlib \<Rightarrow> error + json \<Rightarrow> error + FactContainer" where
  "fetch_delays lib response =
     bind_err response (\<lambda>data.
     bind_err (json_getitem data ''pg'') (\<lambda>pg.
     bind_err (json_getitem pg ''hn'') (\<lambda>hn.
       if truthy hn then Inl PagesOverflow
       else
         bind_err (json_getitem data ''ts'') (\<lambda>v_ts.
         bind_err (as_str v_ts) (\<lambda>s_ts.
         bind_err (datetime_fromisoformat lib s_ts) (\<lambda>ts.
         bind_err (json_getitem data ''tr'') (\<lambda>tr.
         bind_err (json_iter tr) (\<lambda>rows.
         bind_err (map_err (parse_trip_delay lib) rows) (\<lambda>ds.
         Inr \<lparr>FactContainer.timestamp = ts, facts = map TripDelayFact ds\<rparr>)))))))))"

definition parse_alert :: "stdlib \<Rightarrow> json \<Rightarrow> error + Alert" where
  "parse_alert lib d =
     bind_err (json_getitem d ''id'') (\<lambda>v_id.
     bind_err (json_getitem d ''tt'') (\<lambda>v_tt.
     bind_err (json_getitem d ''msg'') (\<lambda>v_msg.
     bind_err (json_getitem d ''ar'') (\<lambda>ar.
     bind_err (json_iter ar) (\<lambda>refs.
     bind_err (map_err (\<lambda>i. bind_err (json_getitem i ''sid'') (\<lambda>sid.
                              bind_err (json_getitem i ''od'') (\<lambda>od.
                              TripDate_parse lib sid od))) refs) (\<lambda>ts.
     bind_err (as_int v_id) (\<lambda>i.
     bind_err (or_empty v_tt) (\<lambda>tt.
     bind_err (or_empty v_msg) (\<lambda>msg.
     Inr \<lparr>Alert.id' = i, title = tt, description = msg, trips = ts\<rparr>)))))))))"

definition fetch_alerts :: "stdlib \<Rightarrow> error + json \<Rightarrow> error + FactContainer" where
  "fetch_alerts lib response =
     bind_err response (\<lambda>data.
     bind_err (json_getitem data ''ts'') (\<lambda>v_ts.
     bind_err (as_str v_ts) (\<lambda>s_ts.
     bind_err (datetime_fromisoformat lib s_ts) (\<lambda>ts.
     bind_err (json_getitem data ''ds'') (\<lambda>ds.
     bind_err (json_iter ds) (\<lambda>rows.
     bind_err (map_err (parse_alert lib) rows) (\<lambda>alerts.
     Inr \<lparr>FactContainer.timestamp = ts, facts = map AlertFact alerts\<rparr>)))))))"

section \<open>Notions of the specification\<close>




text \<open>A trip identifier begins with a run of digits, an underscore and a run of digits.\<close>

definition has_schedule_order_prefix :: "string \<Rightarrow> bool" where
  "has_schedule_order_prefix tid =
     (\<exists>d1 d2 rest. d1 \<noteq> [] \<and> (\<forall>c\<in>set d1. is_digit c) \<and> d2 \<noteq> [] \<and> (\<forall>c\<in>set d2. is_digit c)
        \<and> tid = d1 @ ''_'' @ d2 @ rest)"

text \<open>
  The assignments \<open>by_order[key].by_order_number[order_number] = stop_time\<close> that a stop-time
  row stands for, in the order of the loop: one for each pair that the reverse index
  holds for the row's trip identifier. \<open>apply_write\<close> is one such assignment.
\<close>

definition stop_time_writes ::
  "(string \<rightharpoonup> TripKeyPair list) \<Rightarrow> row \<Rightarrow> (OrderKey \<times> int \<times> StopTime) list" where
  "stop_time_writes trip_id_to_keys row =
     (case (row ''trip_id'', row ''stop_sequence'', row ''stop_id'', row ''plk_order'') of
        (Some tid, Some seq_str, Some sid, Some order_str) \<Rightarrow>
          (case (py_int seq_str, py_int order_str) of
             (Inr seq, Inr order_number) \<Rightarrow>
               map (\<lambda>p. (snd p, order_number,
                          \<lparr>StopTime.trip = fst p, StopTime.stop_sequence = seq,
                           StopTime.stop_id = sid\<rparr>))
                   (get_list trip_id_to_keys tid)
           | _ \<Rightarrow> [])
      | _ \<Rightarrow> [])"

definition apply_write ::
  "(OrderKey \<rightharpoonup> Trips) \<Rightarrow> OrderKey \<times> int \<times> StopTime \<Rightarrow> (OrderKey \<rightharpoonup> Trips)" where
  "apply_write m w =
     (case m (fst w) of
        None \<Rightarrow> m
      | Some t \<Rightarrow>
          m(fst w \<mapsto> t\<lparr>by_order_number := (by_order_number t)(fst (snd w) \<mapsto> snd (snd w))\<rparr>))"

text \<open>
  What identifies a fact: the id of an alert, the start date and trip identifier of a
  delay. \<open>Fact_valid\<close> says that the date of a delay is one that Python can build.
\<close>

fun Fact_key :: "Fact \<Rightarrow> int + date \<times> int" where
  "Fact_key (AlertFact a) = Inl (Alert.id' a)"
| "Fact_key (TripDelayFact t) =
     Inr (TripDate.start_date (TripDelay.trip t), TripDate.trip_id (TripDelay.trip t))"

fun Fact_valid :: "Fact \<Rightarrow> bool" where
  "Fact_valid (AlertFact a) = True"
| "Fact_valid (TripDelayFact t) = valid_date (TripDate.start_date (TripDelay.trip t))"

text \<open>The identifiers of the entities of the feed message that a container renders to.\<close>

definition entity_ids :: "stdlib \<Rightarrow> FactContainer \<Rightarrow> string list" where
  "entity_ids lib c = map FeedEntity.id' (entity (FactContainer_as_gtfs_rt lib c))"

text \<open>The reading or instant by which Python orders a \<open>datetime\<close>, and its kind.\<close>

fun datetime_key :: "datetime \<Rightarrow> int" where
  "datetime_key (Naive a) = a"
| "datetime_key (Aware a _) = a"

fun is_aware :: "datetime \<Rightarrow> bool" where
  "is_aware (Naive _) = False"
| "is_aware (Aware _ _) = True"

section \<open>Sample data\<close>

text \<open>
  The theorems hold for every library parser. To run the model on concrete data the
  examples use these: the day number of a calendar date (the days since 1970-01-01 in the
  proleptic Gregorian calendar), a parser of dates written as eight digits, and a sample of
  the standard library in which a \<open>datetime\<close> is written as a count of seconds.
\<close>

definition days_from_civil :: "int \<Rightarrow> int \<Rightarrow> int \<Rightarrow> Date" where
  "days_from_civil y m d =
     (let y' = (if m \<le> 2 then y - 1 else y);
          era = y' div 400;
          yoe = y' - era * 400;
          doy = (153 * (if m > 2 then m - 3 else m + 9) + 2) div 5 + d - 1;
          doe = yoe * 365 + yoe div 4 - yoe div 100 + doy
      in era * 146097 + doe - 719468)"

definition from_ymd_digits :: "string \<Rightarrow> error + Date" where
  "from_ymd_digits s =
     (if length s = 8 \<and> (\<forall>c\<in>set s. is_digit c)
      then Inr (days_from_civil (int (dec (take 4 s))) (int (dec (take 2 (drop 4 s))))
                  (int (dec (drop 6 s))))
      else Inl (ValueError s))"

definition sample_date_fromisoformat :: "string \<Rightarrow> error + date" where
  "sample_date_fromisoformat s =
     (if length s = 10 \<and> (\<forall>c\<in>set (take 4 s @ take 2 (drop 5 s) @ drop 8 s). is_digit c)
         \<and> s ! 4 = CHR ''-'' \<and> s ! 7 = CHR ''-''
      then Inr \<lparr>year = dec (take 4 s), month = dec (take 2 (drop 5 s)), day = dec (drop 8 s)\<rparr>
      else Inl (ValueError s))"

definition sample_stdlib :: stdlib where
  "sample_stdlib =
     \<lparr>date_fromisoformat = sample_date_fromisoformat,
      datetime_fromisoformat =
        (\<lambda>s. case py_int s of Inl e \<Rightarrow> Inl e | Inr n \<Rightarrow> Inr (Aware (n * 1000000) 0)),
      datetime_isoformat = (\<lambda>t. py_str_int (datetime_key t div 1000000)),
      datetime_isoformat_seconds = (\<lambda>t. py_str_int (datetime_key t div 1000000)),
      round_timestamp = (\<lambda>t. (datetime_key t + 500000) div 1000000)\<rparr>"

text \<open>
  A sample archive. The feed covers June 2025. Service \<open>S-1D\<close> is active on the static days
  2025-06-02 and 2025-06-30, service \<open>S+2D\<close> on 2025-06-01. Two trips share the schedule and
  order numbers 12345 and 6; the two stop-time rows of the first carry the same operator
  order number; the last stop-time row names a trip that is not in the trips table.
\<close>

definition sample_trips :: "row list" where
  "sample_trips =
     [[''trip_id'' \<mapsto> ''12345_6'', ''service_id'' \<mapsto> ''S-1D''],
      [''trip_id'' \<mapsto> ''12345_6_BUS'', ''service_id'' \<mapsto> ''S-1D''],
      [''trip_id'' \<mapsto> ''777_1'', ''service_id'' \<mapsto> ''S+2D'']]"

definition sample_known_stop_times :: "row list" where
  "sample_known_stop_times =
     [[''trip_id'' \<mapsto> ''12345_6'', ''stop_sequence'' \<mapsto> ''0'', ''stop_id'' \<mapsto> ''100'',
       ''plk_order'' \<mapsto> ''1''],
      [''trip_id'' \<mapsto> ''12345_6'', ''stop_sequence'' \<mapsto> ''1'', ''stop_id'' \<mapsto> ''200'',
       ''plk_order'' \<mapsto> ''1'']]"

definition sample_unknown_row :: row where
  "sample_unknown_row = [''trip_id'' \<mapsto> ''999_9'', ''stop_sequence'' \<mapsto> ''x'']"

definition sample_stop_times :: "row list" where
  "sample_stop_times = sample_known_stop_times @ [sample_unknown_row]"

definition sample_archive :: archive where
  "sample_archive =
     [''feed_info.txt'' \<mapsto>
        [[''feed_start_date'' \<mapsto> ''20250601'', ''feed_end_date'' \<mapsto> ''20250630'']],
      ''calendar_dates.txt'' \<mapsto>
        [[''service_id'' \<mapsto> ''S-1D'', ''date'' \<mapsto> ''20250602''],
         [''service_id'' \<mapsto> ''S-1D'', ''date'' \<mapsto> ''20250630''],
         [''service_id'' \<mapsto> ''S+2D'', ''date'' \<mapsto> ''20250601'']],
      ''trips.txt'' \<mapsto> sample_trips,
      ''stop_times.txt'' \<mapsto> sample_stop_times]"

text \<open>
  The dates that the services of the sample retain: the operating day 2025-06-03 for the
  static day 2025-06-02 of \<open>S-1D\<close>; the other two days fall outside the range. And the first
  trip on that static day, with the key of the two trips.
\<close>

definition sample_services :: "string \<rightharpoonup> DatePair list" where
  "sample_services = [''S-1D'' \<mapsto> [(days_from_civil 2025 6 3, days_from_civil 2025 6 2)]]"

definition sample_trip_date :: "(string, Date) TripDate" where
  "sample_trip_date =
     \<lparr>TripDate.trip_id = ''12345_6'', TripDate.start_date = days_from_civil 2025 6 2\<rparr>"

definition sample_key :: OrderKey where
  "sample_key =
     \<lparr>schedule_id = 12345, order_id = 6, operating_date = days_from_civil 2025 6 3\<rparr>"



text \<open>
  A sample response of the delay endpoint, with the given pagination flag: one trip with
  a confirmed stop and a cancelled one. And the two stops as \<open>StopDelay\<close> values.
\<close>

definition sample_delays :: "json \<Rightarrow> json" where
  "sample_delays hn =
     JObj [(''pg'', JObj [(''hn'', hn)]),
           (''ts'', JStr ''100''),
           (''tr'', JList [JObj [(''sid'', JInt 42), (''od'', JStr ''2025-06-03T00:00:00''),
              (''st'', JList [
                 JObj [(''id'', JInt 5), (''psn'', JInt 1), (''cn'', JNull), (''cf'', JBool True),
                       (''aa'', JStr ''160''), (''ad'', JStr ''220'')],
                 JObj [(''id'', JInt 6), (''psn'', JInt 2), (''cn'', JBool True), (''cf'', JNull),
                       (''aa'', JStr ''500''), (''ad'', JStr ''560'')]])]])]"

definition sample_stop_confirmed :: StopDelay where
  "sample_stop_confirmed =
     \<lparr>StopDelay.stop_id = 5, StopDelay.stop_sequence = 1, cancelled = False, confirmed = True,
      live_arrival = Aware 160000000 0, live_departure = Aware 220000000 0\<rparr>"

definition sample_stop_cancelled :: StopDelay where
  "sample_stop_cancelled =
     \<lparr>StopDelay.stop_id = 6, StopDelay.stop_sequence = 2, cancelled = True, confirmed = False,
      live_arrival = Aware 500000000 0, live_departure = Aware 560000000 0\<rparr>"

text \<open>
  An alert with id 42 and a delay of the trip 42, and containers of them: the alert alone,
  the delay alone, and the alert twice.
\<close>

definition sample_alert :: Alert where
  "sample_alert =
     \<lparr>Alert.id' = 42, title = ''Utrudnienia'', description = ''Opis'',
      trips = [\<lparr>TripDate.trip_id = 42,
                TripDate.start_date = \<lparr>year = 2025, month = 6, day = 3\<rparr>\<rparr>]\<rparr>"

definition sample_trip_delay :: TripDelay where
  "sample_trip_delay =
     \<lparr>TripDelay.trip = \<lparr>TripDate.trip_id = 42,
                          TripDate.start_date = \<lparr>year = 2025, month = 6, day = 3\<rparr>\<rparr>,
      stops = [sample_stop_confirmed, sample_stop_cancelled]\<rparr>"

definition sample_alerts :: FactContainer where
  "sample_alerts = \<lparr>FactContainer.timestamp = Aware 90000000 0, facts = [AlertFact sample_alert]\<rparr>"

definition sample_trip_delays :: FactContainer where
  "sample_trip_delays =
     \<lparr>FactContainer.timestamp = Aware 100000000 0, facts = [TripDelayFact sample_trip_delay]\<rparr>"

definition sample_alert_twice :: FactContainer where
  "sample_alert_twice =
     \<lparr>FactContainer.timestamp = Aware 90000000 0,
      facts = [AlertFact sample_alert, AlertFact (sample_alert\<lparr>title := ''Inne''\<rparr>)]\<rparr>"

text \<open>The alert and the delay in one container, as merging the two containers gives it.\<close>

definition sample_merged :: FactContainer where
  "sample_merged =
     \<lparr>FactContainer.timestamp = Aware 100000000 0,
      facts = [AlertFact sample_alert, TripDelayFact sample_trip_delay]\<rparr>"

section \<open>Errors, loops and dictionaries\<close>

lemma bind_err_Inr [simp]: "bind_err (Inr x) f = f x"
  by (simp add: bind_err_def)

lemma bind_err_Inl [simp]: "bind_err (Inl e) f = Inl e"
  by (simp add: bind_err_def)

lemma bind_err_isl: "isl m \<Longrightarrow> isl (bind_err m f)"
  by (cases m) simp_all

lemma bind_err_eq_Inr:
  "bind_err m f = Inr y \<longleftrightarrow> (\<exists>x. m = Inr x \<and> f x = Inr y)"
  by (cases m) simp_all

lemma getitem_Some [simp]: "d k = Some v \<Longrightarrow> getitem d k name = Inr v"
  by (simp add: getitem_def)

lemma getitem_None [simp]: "d k = None \<Longrightarrow> getitem d k name = Inl (KeyError name)"
  by (simp add: getitem_def)

lemma getitem_eq_Inr: "getitem d k name = Inr v \<longleftrightarrow> d k = Some v"
  by (simp add: getitem_def split: option.splits)

lemma for_each_append:
  "for_each body (xs @ ys) s =
     (case for_each body xs s of Inl e \<Rightarrow> Inl e | Inr s' \<Rightarrow> for_each body ys s')"
  by (induction xs arbitrary: s) (auto split: sum.splits)


lemma for_each_preserves:
  assumes "for_each body rs s = Inr s'" "Q s"
    "\<And>r s s'. r \<in> set rs \<Longrightarrow> Q s \<Longrightarrow> body s r = Inr s' \<Longrightarrow> Q s'"
  shows "Q s'"
  using assms
proof (induction rs arbitrary: s)
  case Nil
  then show ?case by simp
next
  case (Cons x xs)
  from Cons.prems(1) obtain s1 where b: "body s x = Inr s1" and r: "for_each body xs s1 = Inr s'"
    by (auto split: sum.splits)
  have q: "Q s1" using Cons.prems(3)[of x s s1] Cons.prems(2) b by simp
  have "Q s''" if "r \<in> set xs" "Q t" "body t r = Inr s''" for r t s''
    using Cons.prems(3)[of r t s''] that by simp
  with Cons.IH[OF r q] show ?case by blast
qed

lemma get_list_None [simp]: "d k = None \<Longrightarrow> get_list d k = []"
  by (simp add: get_list_def)

lemma get_list_Some [simp]: "d k = Some vs \<Longrightarrow> get_list d k = vs"
  by (simp add: get_list_def)

section \<open>Properties of the trip identity codec\<close>

lemma is_digit_not_special:
  "is_digit c \<Longrightarrow> c \<noteq> CHR ''+'' \<and> c \<noteq> CHR ''-'' \<and> c \<noteq> CHR ''_'' \<and> c \<noteq> CHR ''D'' \<and> \<not> py_isspace c"
  by (auto simp: is_digit_def py_isspace_def)


lemma strip_id:
  assumes "s \<noteq> []" "\<not> py_isspace (hd s)" "\<not> py_isspace (last s)"
  shows "strip s = s"
proof -
  from assms obtain c cs where s: "s = c # cs" by (cases s) auto
  with assms have 1: "dropWhile py_isspace s = s" by simp
  from assms have "rev s \<noteq> []" "\<not> py_isspace (hd (rev s))" by (simp_all add: hd_rev)
  then have "dropWhile py_isspace (rev s) = rev s" by (cases "rev s") auto
  with 1 show ?thesis by (simp add: strip_def)
qed

lemma digit_groups_digits:
  "ds \<noteq> [] \<Longrightarrow> \<forall>c\<in>set ds. is_digit c \<Longrightarrow> digit_groups ds = Some ds"
proof (induction ds rule: digit_groups.induct)
  case (3 c u cs)
  then have "u \<noteq> CHR ''_''" using is_digit_not_special by auto
  with 3 show ?case by simp
qed simp_all

lemma py_int_digits:
  assumes "ds \<noteq> []" "\<forall>c\<in>set ds. is_digit c"
  shows "py_int ds = Inr (int (dec ds))"
proof -
  from assms have h: "is_digit (hd ds)" "is_digit (last ds)" by auto
  then have "strip ds = ds" using assms(1) is_digit_not_special by (intro strip_id) auto
  moreover have "hd ds \<noteq> CHR ''-''" "hd ds \<noteq> CHR ''+''" using h is_digit_not_special by auto
  ultimately show ?thesis using assms by (simp add: py_int_def digit_groups_digits)
qed
















section \<open>Malformed trip identifiers\<close>

lemma underscore_not_digit: "\<not> is_digit CHR ''_''"
  by (simp add: is_digit_def)

lemma takeWhile_digits_all: "\<forall>c\<in>set (takeWhile is_digit s). is_digit c"
  by (auto dest: set_takeWhileD)

lemma has_schedule_order_prefix_iff:
  "has_schedule_order_prefix tid \<longleftrightarrow>
     (takeWhile is_digit tid \<noteq> [] \<and> dropWhile is_digit tid \<noteq> []
      \<and> hd (dropWhile is_digit tid) = CHR ''_''
      \<and> takeWhile is_digit (tl (dropWhile is_digit tid)) \<noteq> [])"
  (is "?L \<longleftrightarrow> ?R")
proof
  assume ?L
  then obtain d1 d2 rest where h: "d1 \<noteq> []" "\<forall>c\<in>set d1. is_digit c" "d2 \<noteq> []"
    "\<forall>c\<in>set d2. is_digit c" "tid = d1 @ CHR ''_'' # d2 @ rest"
    by (auto simp: has_schedule_order_prefix_def)
  have t: "takeWhile is_digit tid = d1"
    using h(2,5) underscore_not_digit by (simp add: takeWhile_append2)
  have d: "dropWhile is_digit tid = CHR ''_'' # d2 @ rest"
    using h(2,5) underscore_not_digit by (simp add: dropWhile_append2)
  have "takeWhile is_digit (d2 @ rest) = d2 @ takeWhile is_digit rest"
    using h(4) by (simp add: takeWhile_append2)
  with t d h(1,3) show ?R by simp
next
  assume r: ?R
  let ?d1 = "takeWhile is_digit tid" and ?r1 = "dropWhile is_digit tid"
  let ?d2 = "takeWhile is_digit (tl ?r1)" and ?rest = "dropWhile is_digit (tl ?r1)"
  from r have "?r1 = CHR ''_'' # tl ?r1" by (cases ?r1) auto
  moreover have "tl ?r1 = ?d2 @ ?rest" by simp
  moreover have "tid = ?d1 @ ?r1" by simp
  ultimately have "tid = ?d1 @ ''_'' @ ?d2 @ ?rest" by (metis append_Cons append_Nil)
  with r takeWhile_digits_all show ?L
    unfolding has_schedule_order_prefix_def by blast
qed


lemma extract_schedule_order_ids_no_prefix:
  "\<not> has_schedule_order_prefix tid \<Longrightarrow> extract_schedule_order_ids tid = Inr None"
  unfolding has_schedule_order_prefix_iff extract_schedule_order_ids_def Let_def
  by (simp only: if_False)

lemma extract_schedule_order_ids_total: "\<exists>r. extract_schedule_order_ids tid = Inr r"
proof (cases "has_schedule_order_prefix tid")
  case False
  then show ?thesis by (simp add: extract_schedule_order_ids_no_prefix)
next
  case True
  let ?d1 = "takeWhile is_digit tid" and ?d2 = "takeWhile is_digit (tl (dropWhile is_digit tid))"
  from True have ne: "?d1 \<noteq> []" "?d2 \<noteq> []" by (simp_all add: has_schedule_order_prefix_iff)
  have "py_int ?d1 = Inr (int (dec ?d1))" "py_int ?d2 = Inr (int (dec ?d2))"
    using ne takeWhile_digits_all by (simp_all add: py_int_digits)
  then show ?thesis by (simp add: extract_schedule_order_ids_def Let_def)
qed

lemma extract_schedule_order_ids_Some:
  "extract_schedule_order_ids tid = Inr (Some ids) \<Longrightarrow> has_schedule_order_prefix tid"
  using extract_schedule_order_ids_no_prefix by fastforce









section \<open>The range of operating dates\<close>

lemma load_from_gtfs_Inr:
  assumes "load_from_gtfs from_ymd_str arch = Inr idx"
  obtains f1 dates f2 services f3 st f4 m where
    "arch ''feed_info.txt'' = Some f1" "load_feed_dates from_ymd_str f1 = Inr dates"
    "arch ''calendar_dates.txt'' = Some f2" "load_services from_ymd_str f2 dates = Inr services"
    "arch ''trips.txt'' = Some f3" "load_trips f3 services = Inr st"
    "arch ''stop_times.txt'' = Some f4" "load_stop_times f4 (fst st) (snd st) = Inr m"
    "idx = \<lparr>by_order = m, valid_operating_dates = dates\<rparr>"
  using assms
  by (auto simp: load_from_gtfs_def open_text_def bind_err_eq_Inr getitem_eq_Inr)





section \<open>Delays: pagination and stop-time updates\<close>

text \<open>
  Claim C9. When the pagination flag of a delay response is set (\<open>data["pg"]["hn"]\<close> is
  true in Python's sense), \<open>fetch_delays\<close> raises its error and returns no container,
  whatever the rest of the response holds.
\<close>

theorem fetch_delays_paginated:
  "json_getitem data ''pg'' = Inr pg \<and> json_getitem pg ''hn'' = Inr hn \<and> truthy hn
   \<longrightarrow> fetch_delays lib (Inr data) = Inl PagesOverflow
       \<and> (\<forall>c. fetch_delays lib (Inr data) \<noteq> Inr c)"
  by (simp add: fetch_delays_def)

lemma sample_delays_one_page:
  "\<not> isl (fetch_delays sample_stdlib (Inr (sample_delays (JBool False))))"
  by code_simp

theorem fetch_delays_paginated_witness:
  "json_getitem (sample_delays (JBool True)) ''pg'' = Inr (JObj [(''hn'', JBool True)])
   \<and> json_getitem (JObj [(''hn'', JBool True)]) ''hn'' = Inr (JBool True)
   \<and> truthy (JBool True)
   \<and> fetch_delays sample_stdlib (Inr (sample_delays (JBool True))) = Inl PagesOverflow
   \<and> \<not> isl (fetch_delays sample_stdlib (Inr (sample_delays (JBool False))))"
proof -
  have a: "json_getitem (sample_delays (JBool True)) ''pg'' = Inr (JObj [(''hn'', JBool True)])"
    "json_getitem (JObj [(''hn'', JBool True)]) ''hn'' = Inr (JBool True)"
    by (simp_all add: sample_delays_def json_getitem_def)
  with fetch_delays_paginated[of "sample_delays (JBool True)" "JObj [(''hn'', JBool True)]"
      "JBool True" sample_stdlib] sample_delays_one_page
  show ?thesis by simp
qed

text \<open>
  Claim C8. The stop-time update of a cancelled \<open>StopDelay\<close> is marked skipped and has
  neither an arrival nor a departure. The update of any other \<open>StopDelay\<close> is marked
  scheduled and has both, with the live arrival and the live departure as whole seconds,
  each with uncertainty 0 when the delay is confirmed and 1 when it is not. Both carry
  the stop's sequence number and its identifier as a string.
\<close>

theorem StopDelay_as_gtfs_rt_spec:
  "StopTimeUpdate.stop_sequence (StopDelay_as_gtfs_rt lib s) = StopDelay.stop_sequence s
   \<and> StopTimeUpdate.stop_id (StopDelay_as_gtfs_rt lib s) = py_str_int (StopDelay.stop_id s)
   \<and> (cancelled s
        \<longrightarrow> StopTimeUpdate.schedule_relationship (StopDelay_as_gtfs_rt lib s)
              = Some StopTimeUpdate_SKIPPED
            \<and> arrival (StopDelay_as_gtfs_rt lib s) = None
            \<and> departure (StopDelay_as_gtfs_rt lib s) = None)
   \<and> (\<not> cancelled s
        \<longrightarrow> StopTimeUpdate.schedule_relationship (StopDelay_as_gtfs_rt lib s)
              = Some StopTimeUpdate_SCHEDULED
            \<and> arrival (StopDelay_as_gtfs_rt lib s)
                = Some \<lparr>time = round_timestamp lib (live_arrival s),
                         uncertainty = (if confirmed s then 0 else 1)\<rparr>
            \<and> departure (StopDelay_as_gtfs_rt lib s)
                = Some \<lparr>time = round_timestamp lib (live_departure s),
                         uncertainty = (if confirmed s then 0 else 1)\<rparr>)"
  by (simp add: StopDelay_as_gtfs_rt_def Let_def)

theorem StopDelay_as_gtfs_rt_spec_witness:
  "cancelled sample_stop_cancelled
   \<and> StopDelay_as_gtfs_rt sample_stdlib sample_stop_cancelled
       = \<lparr>StopTimeUpdate.stop_sequence = 2, StopTimeUpdate.stop_id = ''6'', arrival = None,
          departure = None,
          StopTimeUpdate.schedule_relationship = Some StopTimeUpdate_SKIPPED\<rparr>
   \<and> \<not> cancelled sample_stop_confirmed
   \<and> StopDelay_as_gtfs_rt sample_stdlib sample_stop_confirmed
       = \<lparr>StopTimeUpdate.stop_sequence = 1, StopTimeUpdate.stop_id = ''5'',
          arrival = Some \<lparr>time = 160, uncertainty = 0\<rparr>,
          departure = Some \<lparr>time = 220, uncertainty = 0\<rparr>,
          StopTimeUpdate.schedule_relationship = Some StopTimeUpdate_SCHEDULED\<rparr>
   \<and> arrival (StopDelay_as_gtfs_rt sample_stdlib (sample_stop_confirmed\<lparr>confirmed := False\<rparr>))
       = Some \<lparr>time = 160, uncertainty = 1\<rparr>"
proof -
  have s: "py_str_int 6 = ''6''" "py_str_int 5 = ''5''"
    by code_simp+
  have c: "cancelled sample_stop_cancelled" "\<not> cancelled sample_stop_confirmed"
    "\<not> cancelled (sample_stop_confirmed\<lparr>confirmed := False\<rparr>)"
    by (simp_all add: sample_stop_cancelled_def sample_stop_confirmed_def)
  have 1: "StopDelay_as_gtfs_rt sample_stdlib sample_stop_cancelled
       = \<lparr>StopTimeUpdate.stop_sequence = 2, StopTimeUpdate.stop_id = ''6'', arrival = None,
          departure = None,
          StopTimeUpdate.schedule_relationship = Some StopTimeUpdate_SKIPPED\<rparr>"
    using StopDelay_as_gtfs_rt_spec[of sample_stdlib sample_stop_cancelled] c(1) s
    by (cases "StopDelay_as_gtfs_rt sample_stdlib sample_stop_cancelled")
       (simp add: sample_stop_cancelled_def)
  have 2: "StopDelay_as_gtfs_rt sample_stdlib sample_stop_confirmed
       = \<lparr>StopTimeUpdate.stop_sequence = 1, StopTimeUpdate.stop_id = ''5'',
          arrival = Some \<lparr>time = 160, uncertainty = 0\<rparr>,
          departure = Some \<lparr>time = 220, uncertainty = 0\<rparr>,
          StopTimeUpdate.schedule_relationship = Some StopTimeUpdate_SCHEDULED\<rparr>"
    using StopDelay_as_gtfs_rt_spec[of sample_stdlib sample_stop_confirmed] c(2) s
    by (cases "StopDelay_as_gtfs_rt sample_stdlib sample_stop_confirmed")
       (simp add: sample_stop_confirmed_def sample_stdlib_def)
  have 3: "arrival (StopDelay_as_gtfs_rt sample_stdlib (sample_stop_confirmed\<lparr>confirmed := False\<rparr>))
       = Some \<lparr>time = 160, uncertainty = 1\<rparr>"
    using StopDelay_as_gtfs_rt_spec[of sample_stdlib "sample_stop_confirmed\<lparr>confirmed := False\<rparr>"]
      c(3)
    by (simp add: sample_stop_confirmed_def sample_stdlib_def)
  from 1 2 3 c show ?thesis by simp
qed

section \<open>Entity identifiers\<close>

lemma char_of_digit:
  assumes "(k::nat) < 10"
  shows "char_of (48 + k) = ''0123456789'' ! k"
proof -
  from assms have "k = 0 \<or> k = 1 \<or> k = 2 \<or> k = 3 \<or> k = 4 \<or> k = 5 \<or> k = 6 \<or> k = 7 \<or> k = 8 \<or> k = 9"
    by arith
  then show ?thesis
    by (elim disjE; hypsubst; code_simp)
qed

lemma is_digit_char_of: "(k::nat) < 10 \<Longrightarrow> is_digit (char_of (48 + k))"
  unfolding is_digit_def by (simp add: char_of_digit del: set_simps)

lemma digit_val_char_of: "(k::nat) < 10 \<Longrightarrow> digit_val (char_of (48 + k)) = k"
  by (simp add: digit_val_def)

lemma dec_snoc: "dec (xs @ [c]) = 10 * dec xs + digit_val c"
  by (simp add: dec_def)

lemma nat_digits_all_digits: "\<forall>c\<in>set (nat_digits n). is_digit c"
  by (induction n rule: nat_digits.induct)
     (subst nat_digits.simps, simp add: is_digit_char_of)

lemma nat_digits_nonempty: "nat_digits n \<noteq> []"
  by (subst nat_digits.simps) simp

lemma dec_nat_digits: "dec (nat_digits n) = n"
proof (induction n rule: nat_digits.induct)
  case (1 n)
  show ?case
  proof (cases "n < 10")
    case True
    then show ?thesis
      by (subst nat_digits.simps) (simp add: dec_def digit_val_char_of)
  next
    case False
    with 1 have "dec (nat_digits (n div 10)) = n div 10" by simp
    with False show ?thesis
      by (subst nat_digits.simps) (simp add: dec_snoc digit_val_char_of)
  qed
qed

lemma nat_digits_inj: "nat_digits m = nat_digits n \<Longrightarrow> m = n"
  by (metis dec_nat_digits)

lemma py_str_int_inj:
  assumes "py_str_int i = py_str_int j"
  shows "i = j"
proof -
  have nd: "nat_digits n \<noteq> CHR ''-'' # xs" for n xs
  proof
    assume "nat_digits n = CHR ''-'' # xs"
    then have "CHR ''-'' \<in> set (nat_digits n)" by simp
    with nat_digits_all_digits[of n] have "is_digit CHR ''-''" by blast
    then show False by (simp add: is_digit_def)
  qed
  consider "i < 0" "j < 0" | "i < 0" "\<not> j < 0" | "\<not> i < 0" "j < 0" | "\<not> i < 0" "\<not> j < 0"
    by blast
  then show ?thesis
  proof cases
    case 1
    with assms have "nat (- i) = nat (- j)" by (simp add: py_str_int_def nat_digits_inj)
    with 1 show ?thesis by simp
  next
    case 2
    with assms nd show ?thesis by (simp add: py_str_int_def) metis
  next
    case 3
    with assms nd show ?thesis by (simp add: py_str_int_def)
  next
    case 4
    with assms have "nat i = nat j" by (simp add: py_str_int_def nat_digits_inj)
    with 4 show ?thesis by simp
  qed
qed

lemma dec_zeros: "dec (replicate k CHR ''0'' @ s) = dec s"
proof -
  have "foldl (\<lambda>n c. 10 * n + digit_val c) 0 (replicate k CHR ''0'') = 0"
    by (induction k) (simp_all add: digit_val_def)
  then show ?thesis by (simp add: dec_def)
qed

lemma dec_zero_pad: "dec (zero_pad w s) = dec s"
  by (simp add: zero_pad_def dec_zeros)

lemma length_nat_digits: "0 < k \<Longrightarrow> n < 10 ^ k \<Longrightarrow> length (nat_digits n) \<le> k"
proof (induction k arbitrary: n)
  case 0
  then show ?case by simp
next
  case (Suc k)
  show ?case
  proof (cases "n < 10")
    case True
    then show ?thesis by (subst nat_digits.simps) simp
  next
    case False
    with Suc.prems have k: "0 < k" by (cases k) auto
    from Suc.prems have "n div 10 < 10 ^ k" by (simp add: less_mult_imp_div_less mult.commute)
    from Suc.IH[OF k this] False show ?thesis by (subst nat_digits.simps) simp
  qed
qed

lemma length_zero_pad: "length s \<le> w \<Longrightarrow> length (zero_pad w s) = w"
  by (simp add: zero_pad_def)

lemma length_pad4: "n \<le> 9999 \<Longrightarrow> length (zero_pad 4 (nat_digits n)) = 4"
  by (rule length_zero_pad) (rule length_nat_digits, simp_all)

lemma length_pad2: "n \<le> 31 \<Longrightarrow> length (zero_pad 2 (nat_digits n)) = 2"
  by (rule length_zero_pad) (rule length_nat_digits, simp_all)

lemma pad_inj: "zero_pad w (nat_digits m) = zero_pad w (nat_digits n) \<Longrightarrow> m = n"
  by (metis dec_zero_pad dec_nat_digits)

lemma length_date_isoformat: "valid_date d \<Longrightarrow> length (date_isoformat d) = 10"
  by (simp add: date_isoformat_def valid_date_def length_pad4 length_pad2)

lemma date_isoformat_inj:
  assumes "valid_date d" "valid_date e" "date_isoformat d = date_isoformat e"
  shows "d = e"
proof -
  let ?y = "\<lambda>d. zero_pad 4 (nat_digits (year d))" and ?m = "\<lambda>d. zero_pad 2 (nat_digits (month d))"
  let ?d = "\<lambda>d. zero_pad 2 (nat_digits (day d))"
  have ly: "length (?y d) = length (?y e)"
    using assms(1,2) by (simp add: valid_date_def length_pad4)
  have lm: "length (?m d) = length (?m e)"
    using assms(1,2) by (simp add: valid_date_def length_pad2)
  from assms(3) have "?y d @ (''-'' @ ?m d @ ''-'' @ ?d d) = ?y e @ (''-'' @ ?m e @ ''-'' @ ?d e)"
    by (simp add: date_isoformat_def)
  with ly have 1: "?y d = ?y e" and "?m d @ (''-'' @ ?d d) = ?m e @ (''-'' @ ?d e)" by simp_all
  with lm have 2: "?m d = ?m e" and 3: "?d d = ?d e" by simp_all
  from 1 2 3 have "year d = year e" "month d = month e" "day d = day e"
    by (auto dest: pad_inj)
  then show ?thesis by simp
qed

lemma alert_id_inj:
  "FeedEntity.id' (Alert_as_gtfs_rt a) = FeedEntity.id' (Alert_as_gtfs_rt b)
     \<longleftrightarrow> Alert.id' a = Alert.id' b"
  by (auto simp: Alert_as_gtfs_rt_def dest: py_str_int_inj)

lemma delay_id_inj:
  assumes "valid_date (TripDate.start_date (TripDelay.trip s))"
    "valid_date (TripDate.start_date (TripDelay.trip t))"
  shows "FeedEntity.id' (TripDelay_as_gtfs_rt lib s) = FeedEntity.id' (TripDelay_as_gtfs_rt lib t)
     \<longleftrightarrow> TripDate.start_date (TripDelay.trip s) = TripDate.start_date (TripDelay.trip t)
         \<and> TripDate.trip_id (TripDelay.trip s) = TripDate.trip_id (TripDelay.trip t)"
  (is "?L \<longleftrightarrow> ?R")
proof
  assume ?R
  then show ?L by (simp add: TripDelay_as_gtfs_rt_def)
next
  let ?ds = "TripDate.start_date (TripDelay.trip s)" and ?dt = "TripDate.start_date (TripDelay.trip t)"
  let ?is = "TripDate.trip_id (TripDelay.trip s)" and ?it = "TripDate.trip_id (TripDelay.trip t)"
  assume ?L
  then have e: "date_isoformat ?ds @ (''_'' @ py_str_int ?is)
      = date_isoformat ?dt @ (''_'' @ py_str_int ?it)"
    by (simp add: TripDelay_as_gtfs_rt_def)
  have "length (date_isoformat ?ds) = length (date_isoformat ?dt)"
    using assms by (simp add: length_date_isoformat)
  with e have "date_isoformat ?ds = date_isoformat ?dt" "py_str_int ?is = py_str_int ?it"
    by simp_all
  then show ?R using assms by (auto dest: date_isoformat_inj py_str_int_inj)
qed

lemma alert_delay_ids_differ:
  "FeedEntity.id' (Alert_as_gtfs_rt a) \<noteq> FeedEntity.id' (TripDelay_as_gtfs_rt lib t)"
  by (simp add: Alert_as_gtfs_rt_def TripDelay_as_gtfs_rt_def)

lemma fact_id_eq_iff:
  assumes "Fact_valid f" "Fact_valid g"
  shows "FeedEntity.id' (Fact_as_gtfs_rt lib f) = FeedEntity.id' (Fact_as_gtfs_rt lib g)
     \<longleftrightarrow> Fact_key f = Fact_key g"
proof (cases f)
  case fa: (AlertFact a)
  show ?thesis
  proof (cases g)
    case (AlertFact b)
    with fa show ?thesis by (simp add: alert_id_inj)
  next
    case (TripDelayFact t)
    with fa show ?thesis by (simp add: alert_delay_ids_differ)
  qed
next
  case fd: (TripDelayFact s)
  show ?thesis
  proof (cases g)
    case (AlertFact b)
    with fd alert_delay_ids_differ[of b lib s] show ?thesis by auto
  next
    case (TripDelayFact t)
    with fd assms show ?thesis by (simp add: delay_id_inj)
  qed
qed

lemma distinct_map_cong_iff:
  assumes "\<And>x y. x \<in> set xs \<Longrightarrow> y \<in> set xs \<Longrightarrow> f x = f y \<longleftrightarrow> g x = g y"
  shows "distinct (map f xs) \<longleftrightarrow> distinct (map g xs)"
  using assms
proof (induction xs)
  case Nil
  then show ?case by simp
next
  case (Cons x xs)
  have "f x \<in> f ` set xs \<longleftrightarrow> g x \<in> g ` set xs"
    using Cons.prems by (auto simp: image_iff)
  moreover have "distinct (map f xs) \<longleftrightarrow> distinct (map g xs)"
    using Cons.prems by (intro Cons.IH) simp
  ultimately show ?case by simp
qed

lemma entity_ids_eq:
  "entity_ids lib c = map (\<lambda>f. FeedEntity.id' (Fact_as_gtfs_rt lib f)) (facts c)"
  by (simp add: entity_ids_def FactContainer_as_gtfs_rt_def comp_def)

lemma json_id_eq:
  "json_getitem (Fact_as_json lib f) ''id'' = Inr (JStr (FeedEntity.id' (Fact_as_gtfs_rt lib f)))"
  by (cases f)
     (simp_all add: json_getitem_def Alert_as_json_def Alert_as_gtfs_rt_def
        TripDelay_as_json_def TripDelay_as_gtfs_rt_def)

text \<open>
  Claim C6, as amended. In every container whose delays carry dates that Python can
  build, the identifiers of the rendered entities are pairwise distinct exactly when the
  facts are pairwise distinct in what identifies them: the id of an alert, the start date
  and trip identifier of a delay. The identifier of an alert is never that of a delay,
  also when the id of the alert is the trip identifier of the delay. The JSON rendering
  of a fact carries the same identifier as its feed entity.
\<close>

theorem entity_ids_distinct:
  "((\<forall>f\<in>set (facts c). Fact_valid f)
      \<longrightarrow> (distinct (entity_ids lib c) \<longleftrightarrow> distinct (map Fact_key (facts c))))
   \<and> FeedEntity.id' (Fact_as_gtfs_rt lib (AlertFact a))
       \<noteq> FeedEntity.id' (Fact_as_gtfs_rt lib (TripDelayFact t))
   \<and> (\<forall>f\<in>set (facts c).
         json_getitem (Fact_as_json lib f) ''id''
           = Inr (JStr (FeedEntity.id' (Fact_as_gtfs_rt lib f))))"
proof (intro conjI impI ballI)
  assume v: "\<forall>f\<in>set (facts c). Fact_valid f"
  show "distinct (entity_ids lib c) \<longleftrightarrow> distinct (map Fact_key (facts c))"
    unfolding entity_ids_eq
    by (rule distinct_map_cong_iff) (use v in \<open>simp add: fact_id_eq_iff\<close>)
next
  show "FeedEntity.id' (Fact_as_gtfs_rt lib (AlertFact a))
       \<noteq> FeedEntity.id' (Fact_as_gtfs_rt lib (TripDelayFact t))"
    by (simp add: alert_delay_ids_differ)
next
  fix f
  show "json_getitem (Fact_as_json lib f) ''id''
           = Inr (JStr (FeedEntity.id' (Fact_as_gtfs_rt lib f)))"
    by (rule json_id_eq)
qed

theorem entity_ids_distinct_witness:
  "Fact_valid (AlertFact sample_alert) \<and> Fact_valid (TripDelayFact sample_trip_delay)
   \<and> distinct (map Fact_key (facts sample_merged))
   \<and> distinct (entity_ids sample_stdlib sample_merged)
   \<and> entity_ids sample_stdlib sample_merged = [''A_42'', ''D_2025-06-03_42'']"
proof -
  have v: "Fact_valid (AlertFact sample_alert)" "Fact_valid (TripDelayFact sample_trip_delay)"
    by (simp_all add: sample_trip_delay_def valid_date_def)
  then have b: "\<forall>f\<in>set (facts sample_merged). Fact_valid f"
    by (simp add: sample_merged_def)
  have k: "distinct (map Fact_key (facts sample_merged))"
    by (simp add: sample_merged_def)
  have e: "entity_ids sample_stdlib sample_merged = [''A_42'', ''D_2025-06-03_42'']"
    by code_simp
  from entity_ids_distinct[of sample_merged sample_stdlib] b k
  have "distinct (entity_ids sample_stdlib sample_merged)" by blast
  with v k e show ?thesis by simp
qed

text \<open>
  Claim C6 as stated holds of every container. This one holds the alert 42 twice, as two
  alert records of the operator with the same id give it, and its two entities have
  the same identifier.
\<close>

theorem entity_ids_duplicate_counterexample:
  "entity_ids sample_stdlib sample_alert_twice = [''A_42'', ''A_42'']
   \<and> \<not> distinct (entity_ids sample_stdlib sample_alert_twice)"
proof -
  have "entity_ids sample_stdlib sample_alert_twice = [''A_42'', ''A_42'']"
    by code_simp
  then show ?thesis by simp
qed

section \<open>Merging containers\<close>

lemma py_max_eq:
  "py_max x y =
     (if is_aware x = is_aware y
      then Inr (if datetime_key x < datetime_key y then y else x)
      else Inl TypeError)"
  by (cases x; cases y) (simp_all add: py_max_def)

lemma merge_eq:
  "merge a b =
     (if is_aware (FactContainer.timestamp a) = is_aware (FactContainer.timestamp b)
      then Inr \<lparr>FactContainer.timestamp =
                  (if datetime_key (FactContainer.timestamp a) < datetime_key (FactContainer.timestamp b)
                   then FactContainer.timestamp b else FactContainer.timestamp a),
                facts = facts a @ facts b\<rparr>
      else Inl TypeError)"
  by (simp add: merge_def py_max_eq)

lemma merge_assoc:
  "bind_err (merge a b) (\<lambda>ab. merge ab c) = bind_err (merge b c) (\<lambda>bc. merge a bc)"
  by (simp add: merge_eq)

lemma merge_Inr:
  assumes "merge a b = Inr ab"
  shows "datetime_key (FactContainer.timestamp ab)
           = max (datetime_key (FactContainer.timestamp a)) (datetime_key (FactContainer.timestamp b))"
    and "FactContainer.timestamp ab = FactContainer.timestamp a
           \<or> FactContainer.timestamp ab = FactContainer.timestamp b"
    and "facts ab = facts a @ facts b"
  using assms by (auto simp: merge_eq split: if_splits)

text \<open>
  Claim C5. Merging two containers whose timestamps Python can compare (both naive or both
  aware) gives the later of the two timestamps, the first on a tie, and the facts of the
  first followed by the facts of the second; Python cannot take the maximum of a naive and
  an aware timestamp, and then the merge raises that \<open>TypeError\<close>. Merging three containers
  gives the same result in both groupings: the same error, or the same container, so the
  same timestamp and the same facts in the same order.
\<close>

theorem merge_spec:
  "merge a b =
     (if is_aware (FactContainer.timestamp a) = is_aware (FactContainer.timestamp b)
      then Inr \<lparr>FactContainer.timestamp =
                  (if datetime_key (FactContainer.timestamp a) < datetime_key (FactContainer.timestamp b)
                   then FactContainer.timestamp b else FactContainer.timestamp a),
                facts = facts a @ facts b\<rparr>
      else Inl TypeError)
   \<and> (merge a b = Inr ab
        \<longrightarrow> datetime_key (FactContainer.timestamp ab)
              = max (datetime_key (FactContainer.timestamp a))
                    (datetime_key (FactContainer.timestamp b))
            \<and> facts ab = facts a @ facts b)
   \<and> bind_err (merge a b) (\<lambda>x. merge x c) = bind_err (merge b c) (\<lambda>y. merge a y)
   \<and> (merge a b = Inr ab \<and> merge ab c = Inr ab_c \<and> merge b c = Inr bc \<and> merge a bc = Inr a_bc
        \<longrightarrow> FactContainer.timestamp ab_c = FactContainer.timestamp a_bc
            \<and> facts ab_c = facts a_bc
            \<and> mset (facts ab_c) = mset (facts a_bc))"
proof (intro conjI impI)
  show "merge a b =
     (if is_aware (FactContainer.timestamp a) = is_aware (FactContainer.timestamp b)
      then Inr \<lparr>FactContainer.timestamp =
                  (if datetime_key (FactContainer.timestamp a) < datetime_key (FactContainer.timestamp b)
                   then FactContainer.timestamp b else FactContainer.timestamp a),
                facts = facts a @ facts b\<rparr>
      else Inl TypeError)"
    by (rule merge_eq)
  show "bind_err (merge a b) (\<lambda>x. merge x c) = bind_err (merge b c) (\<lambda>y. merge a y)"
    by (rule merge_assoc)
next
  assume "merge a b = Inr ab"
  then show "datetime_key (FactContainer.timestamp ab)
              = max (datetime_key (FactContainer.timestamp a))
                    (datetime_key (FactContainer.timestamp b))"
    and "facts ab = facts a @ facts b"
    by (rule merge_Inr)+
next
  assume h: "merge a b = Inr ab \<and> merge ab c = Inr ab_c \<and> merge b c = Inr bc \<and> merge a bc = Inr a_bc"
  with merge_assoc[of a b c] have "ab_c = a_bc" by simp
  then show "FactContainer.timestamp ab_c = FactContainer.timestamp a_bc"
    "facts ab_c = facts a_bc" "mset (facts ab_c) = mset (facts a_bc)"
    by simp_all
qed

theorem merge_spec_witness:
  "merge sample_alerts sample_trip_delays = Inr sample_merged
   \<and> merge sample_merged sample_alert_twice
       = Inr (sample_merged\<lparr>facts := facts sample_merged @ facts sample_alert_twice\<rparr>)
   \<and> merge sample_trip_delays sample_alert_twice
       = Inr (sample_trip_delays\<lparr>facts := facts sample_trip_delays @ facts sample_alert_twice\<rparr>)
   \<and> merge sample_alerts
        (sample_trip_delays\<lparr>facts := facts sample_trip_delays @ facts sample_alert_twice\<rparr>)
       = Inr (sample_merged\<lparr>facts := facts sample_merged @ facts sample_alert_twice\<rparr>)
   \<and> datetime_key (FactContainer.timestamp sample_merged) = 100000000
   \<and> merge sample_alerts (sample_trip_delays\<lparr>FactContainer.timestamp := Naive 5\<rparr>)
       = Inl TypeError"
proof -
  have t: "FactContainer.timestamp sample_alerts = Aware 90000000 0"
    "FactContainer.timestamp sample_trip_delays = Aware 100000000 0"
    "FactContainer.timestamp sample_alert_twice = Aware 90000000 0"
    "FactContainer.timestamp sample_merged = Aware 100000000 0"
    by (simp_all add: sample_alerts_def sample_trip_delays_def sample_alert_twice_def
        sample_merged_def)
  have f: "facts sample_alerts @ facts sample_trip_delays = facts sample_merged"
    by (simp add: sample_alerts_def sample_trip_delays_def sample_merged_def)
  have 1: "merge sample_alerts sample_trip_delays = Inr sample_merged"
    using merge_spec[of sample_alerts sample_trip_delays, THEN conjunct1] t f
    by (simp add: sample_merged_def)
  have 2: "merge sample_merged sample_alert_twice
       = Inr (sample_merged\<lparr>facts := facts sample_merged @ facts sample_alert_twice\<rparr>)"
    using merge_spec[of sample_merged sample_alert_twice, THEN conjunct1] t
    by (simp add: sample_merged_def)
  have 3: "merge sample_trip_delays sample_alert_twice
       = Inr (sample_trip_delays\<lparr>facts := facts sample_trip_delays @ facts sample_alert_twice\<rparr>)"
    using merge_spec[of sample_trip_delays sample_alert_twice, THEN conjunct1] t
    by (simp add: sample_trip_delays_def)
  have "bind_err (merge sample_alerts sample_trip_delays) (\<lambda>x. merge x sample_alert_twice)
      = bind_err (merge sample_trip_delays sample_alert_twice) (\<lambda>y. merge sample_alerts y)"
    using merge_spec[of sample_alerts sample_trip_delays _ sample_alert_twice] by blast
  then have 4: "merge sample_alerts
        (sample_trip_delays\<lparr>facts := facts sample_trip_delays @ facts sample_alert_twice\<rparr>)
       = Inr (sample_merged\<lparr>facts := facts sample_merged @ facts sample_alert_twice\<rparr>)"
    unfolding 1 2 3 bind_err_Inr 2 by simp
  have 5: "merge sample_alerts (sample_trip_delays\<lparr>FactContainer.timestamp := Naive 5\<rparr>)
       = Inl TypeError"
    using merge_spec[of sample_alerts "sample_trip_delays\<lparr>FactContainer.timestamp := Naive 5\<rparr>",
        THEN conjunct1] t
    by simp
  have 6: "datetime_key (FactContainer.timestamp sample_merged) = 100000000"
    using t by simp
  from 1 2 3 4 5 6 show ?thesis by blast
qed

section \<open>Stop-time rows of unknown trips\<close>

lemma load_stop_times_row_unknown:
  assumes "row ''trip_id'' = Some tid" "trip_id_to_keys tid = None"
  shows "load_stop_times_row trip_id_to_keys m row = Inr m"
  using assms by (simp add: load_stop_times_row_def)

lemma load_stop_times_unknown:
  assumes "row ''trip_id'' = Some tid" "trip_id_to_keys tid = None"
  shows "load_stop_times (pre @ row # post) m trip_id_to_keys
           = load_stop_times (pre @ post) m trip_id_to_keys"
  using load_stop_times_row_unknown[of row tid trip_id_to_keys, OF assms]
  by (simp add: load_stop_times_def for_each_append split: sum.splits)

lemma register_trip_other:
  "tid' \<noteq> tid \<Longrightarrow> snd (register_trip tid' sid oid st p) tid = snd st tid"
  by (simp add: register_trip_def Let_def split: option.splits)

lemma foldl_register_trip_other:
  "tid' \<noteq> tid \<Longrightarrow> snd (foldl (register_trip tid' sid oid) st ps) tid = snd st tid"
  by (induction ps arbitrary: st) (simp_all add: register_trip_other)

lemma load_trips_row_keeps_unknown:
  assumes "load_trips_row services st row = Inr st'" "snd st tid = None"
    "row ''trip_id'' = Some tid \<longrightarrow> (\<exists>sid. row ''service_id'' = Some sid \<and> get_list services sid = [])"
  shows "snd st' tid = None"
proof -
  from assms(1) obtain tid' sid oid service_id where
    r: "row ''trip_id'' = Some tid'" "row ''service_id'' = Some service_id"
    and s: "st' = foldl (register_trip tid' sid oid) st (get_list services service_id)"
    by (auto simp: load_trips_row_def bind_err_eq_Inr getitem_eq_Inr split: option.splits)
  show ?thesis
  proof (cases "tid' = tid")
    case True
    with r assms(3) have "get_list services service_id = []" by auto
    with s assms(2) show ?thesis by simp
  next
    case False
    with s assms(2) show ?thesis by (simp add: foldl_register_trip_other)
  qed
qed

lemma load_trips_unknown:
  assumes "load_trips f services = Inr st"
    "\<forall>r\<in>set f. r ''trip_id'' = Some tid
        \<longrightarrow> (\<exists>sid. r ''service_id'' = Some sid \<and> get_list services sid = [])"
  shows "snd st tid = None"
proof -
  have "for_each (load_trips_row services) f (Map.empty, Map.empty) = Inr st"
    using assms(1) by (simp add: load_trips_def)
  then show ?thesis
  proof (rule for_each_preserves[where Q = "\<lambda>s. snd s tid = None"])
    show "snd (Map.empty, Map.empty) tid = None" by simp
  next
    fix r s s'
    assume "r \<in> set f" "snd s tid = None" "load_trips_row services s r = Inr s'"
    then show "snd s' tid = None"
      using assms(2) load_trips_row_keeps_unknown[of services s r s' tid] by blast
  qed
qed

text \<open>
  Claim C10. A stop-time row whose trip identifier has no entry in the reverse index is
  skipped: processing it raises nothing and changes nothing, whatever its other columns
  hold, so the table loads as it does without the row. A trip identifier has no entry
  when every row of the trips table that carries it belongs to a service without a
  retained date, and so also when no row carries it.
\<close>

theorem stop_time_unknown_trip_skipped:
  "(row ''trip_id'' = Some tid \<and> trip_id_to_keys tid = None
      \<longrightarrow> load_stop_times_row trip_id_to_keys m row = Inr m
          \<and> load_stop_times (pre @ row # post) m trip_id_to_keys
              = load_stop_times (pre @ post) m trip_id_to_keys)
   \<and> (load_trips f services = Inr st
        \<and> (\<forall>r\<in>set f. r ''trip_id'' = Some tid
              \<longrightarrow> (\<exists>sid. r ''service_id'' = Some sid \<and> get_list services sid = []))
      \<longrightarrow> snd st tid = None)"
  using load_stop_times_row_unknown[of row tid trip_id_to_keys m]
    load_stop_times_unknown[of row tid trip_id_to_keys pre post m]
    load_trips_unknown[of f services st tid]
  by blast

lemma sample_trips_load: "\<exists>st. load_trips sample_trips sample_services = Inr st"
proof -
  have "\<not> isl (load_trips sample_trips sample_services)" by code_simp
  then show ?thesis by (metis sum.collapse(2))
qed

theorem stop_time_unknown_trip_skipped_witness:
  "sample_unknown_row ''trip_id'' = Some ''999_9''
   \<and> (\<exists>st. load_trips sample_trips sample_services = Inr st
         \<and> snd st ''999_9'' = None \<and> snd st ''777_1'' = None
         \<and> load_stop_times_row (snd st) (fst st) sample_unknown_row = Inr (fst st)
         \<and> load_stop_times sample_stop_times (fst st) (snd st)
             = load_stop_times sample_known_stop_times (fst st) (snd st))"
proof -
  obtain st where l: "load_trips sample_trips sample_services = Inr st"
    using sample_trips_load by blast
  have r: "sample_unknown_row ''trip_id'' = Some ''999_9''"
    by (simp add: sample_unknown_row_def)
  have a: "\<forall>r\<in>set sample_trips. r ''trip_id'' = Some ''999_9''
        \<longrightarrow> (\<exists>sid. r ''service_id'' = Some sid \<and> get_list sample_services sid = [])"
    by (simp add: sample_trips_def)
  have b: "\<forall>r\<in>set sample_trips. r ''trip_id'' = Some ''777_1''
        \<longrightarrow> (\<exists>sid. r ''service_id'' = Some sid \<and> get_list sample_services sid = [])"
    by (simp add: sample_trips_def sample_services_def get_list_def)
  have 1: "snd st ''999_9'' = None"
    using stop_time_unknown_trip_skipped[where f = sample_trips and services = sample_services
        and st = st and tid = "''999_9''"]
      l a by blast
  have 2: "snd st ''777_1'' = None"
    using stop_time_unknown_trip_skipped[where f = sample_trips and services = sample_services
        and st = st and tid = "''777_1''"]
      l b by blast
  have 3: "load_stop_times_row (snd st) (fst st) sample_unknown_row = Inr (fst st)"
    "load_stop_times (sample_known_stop_times @ sample_unknown_row # []) (fst st) (snd st)
       = load_stop_times (sample_known_stop_times @ []) (fst st) (snd st)"
    using stop_time_unknown_trip_skipped[where row = sample_unknown_row and tid = "''999_9''"
        and trip_id_to_keys = "snd st" and m = "fst st" and pre = sample_known_stop_times
        and post = "[]"] r 1 by blast+
  from l r 1 2 3 show ?thesis by (auto simp: sample_stop_times_def)
qed

section \<open>Stop times by order number\<close>

lemma store_stop_time_Inr:
  assumes "store_stop_time row m p = Inr m'"
  obtains seq_str seq sid order_str n where
    "row ''stop_sequence'' = Some seq_str" "py_int seq_str = Inr seq"
    "row ''stop_id'' = Some sid"
    "row ''plk_order'' = Some order_str" "py_int order_str = Inr n"
    "m (snd p) \<noteq> None"
    "m' = apply_write m (snd p, n, \<lparr>StopTime.trip = fst p, StopTime.stop_sequence = seq,
                                     StopTime.stop_id = sid\<rparr>)"
  using assms
  by (auto simp: store_stop_time_def apply_write_def bind_err_eq_Inr getitem_eq_Inr)

lemma store_stop_times_fold:
  assumes "row ''stop_sequence'' = Some seq_str" "py_int seq_str = Inr seq"
    "row ''stop_id'' = Some sid"
    "row ''plk_order'' = Some order_str" "py_int order_str = Inr n"
  shows "for_each (store_stop_time row) ps m = Inr m' \<Longrightarrow>
     m' = foldl apply_write m
            (map (\<lambda>p. (snd p, n, \<lparr>StopTime.trip = fst p, StopTime.stop_sequence = seq,
                                   StopTime.stop_id = sid\<rparr>)) ps)"
proof (induction ps arbitrary: m)
  case Nil
  then show ?case by simp
next
  case (Cons p ps)
  from Cons.prems obtain m1 where s: "store_stop_time row m p = Inr m1"
    and r: "for_each (store_stop_time row) ps m1 = Inr m'"
    by (auto split: sum.splits)
  from s have "m1 = apply_write m (snd p, n, \<lparr>StopTime.trip = fst p, StopTime.stop_sequence = seq,
                                     StopTime.stop_id = sid\<rparr>)"
    using assms by (elim store_stop_time_Inr) simp
  with Cons.IH[OF r] show ?case by simp
qed

lemma load_stop_times_row_fold:
  assumes "load_stop_times_row trip_id_to_keys m row = Inr m'"
  shows "m' = foldl apply_write m (stop_time_writes trip_id_to_keys row)"
proof -
  from assms obtain tid where t: "row ''trip_id'' = Some tid"
    and f: "for_each (store_stop_time row) (get_list trip_id_to_keys tid) m = Inr m'"
    by (auto simp: load_stop_times_row_def bind_err_eq_Inr getitem_eq_Inr)
  show ?thesis
  proof (cases "get_list trip_id_to_keys tid")
    case Nil
    with f have "m' = m" by simp
    moreover from Nil t have "stop_time_writes trip_id_to_keys row = []"
      by (simp add: stop_time_writes_def split: option.splits sum.splits)
    ultimately show ?thesis by simp
  next
    case (Cons p ps)
    with f obtain m1 where "store_stop_time row m p = Inr m1" by (auto split: sum.splits)
    then obtain seq_str seq sid order_str n where
      h: "row ''stop_sequence'' = Some seq_str" "py_int seq_str = Inr seq"
         "row ''stop_id'' = Some sid"
         "row ''plk_order'' = Some order_str" "py_int order_str = Inr n"
      by (elim store_stop_time_Inr)
    from store_stop_times_fold[OF h f] t h show ?thesis
      by (simp add: stop_time_writes_def)
  qed
qed

lemma load_stop_times_fold:
  "load_stop_times f m trip_id_to_keys = Inr m' \<Longrightarrow>
     m' = foldl apply_write m (concat (map (stop_time_writes trip_id_to_keys) f))"
  unfolding load_stop_times_def
proof (induction f arbitrary: m)
  case Nil
  then show ?case by simp
next
  case (Cons row f)
  from Cons.prems obtain m1 where s: "load_stop_times_row trip_id_to_keys m row = Inr m1"
    and r: "for_each (load_stop_times_row trip_id_to_keys) f m1 = Inr m'"
    by (auto split: sum.splits)
  from load_stop_times_row_fold[OF s] Cons.IH[OF r] show ?case by simp
qed

lemma apply_write_None: "m key = None \<Longrightarrow> apply_write m w key = None"
  by (cases "m (fst w)") (auto simp: apply_write_def)

lemma foldl_apply_write_None: "m key = None \<Longrightarrow> foldl apply_write m ws key = None"
  by (induction ws arbitrary: m) (simp_all add: apply_write_None)

lemma apply_write_Some:
  assumes "m key = Some t"
  shows "\<exists>t'. apply_write m w key = Some t' \<and> all t' = all t
           \<and> (\<forall>n. by_order_number t' n
                  = (if fst w = key \<and> fst (snd w) = n then Some (snd (snd w))
                     else by_order_number t n))"
proof (cases "fst w = key")
  case True
  with assms show ?thesis by (simp add: apply_write_def)
next
  case False
  with assms show ?thesis by (cases "m (fst w)") (simp_all add: apply_write_def)
qed

lemma foldl_apply_write_Some:
  assumes "m key = Some t"
  shows "\<exists>t'. foldl apply_write m ws key = Some t' \<and> all t' = all t
           \<and> (\<forall>n. by_order_number t' n
                  = (case filter (\<lambda>w. fst w = key \<and> fst (snd w) = n) ws of
                       [] \<Rightarrow> by_order_number t n
                     | v # vs \<Rightarrow> Some (snd (snd (last (v # vs))))))"
proof (induction ws rule: rev_induct)
  case Nil
  with assms show ?case by simp
next
  case (snoc w ws)
  then obtain t1 where t1: "foldl apply_write m ws key = Some t1" "all t1 = all t"
    and n1: "\<And>n. by_order_number t1 n
                  = (case filter (\<lambda>w. fst w = key \<and> fst (snd w) = n) ws of
                       [] \<Rightarrow> by_order_number t n
                     | v # vs \<Rightarrow> Some (snd (snd (last (v # vs)))))"
    by blast
  from apply_write_Some[of "foldl apply_write m ws" key t1 w, OF t1(1)] obtain t2 where
    t2: "apply_write (foldl apply_write m ws) w key = Some t2" "all t2 = all t1"
    and n2: "\<And>n. by_order_number t2 n
                  = (if fst w = key \<and> fst (snd w) = n then Some (snd (snd w))
                     else by_order_number t1 n)"
    by blast
  have "by_order_number t2 n
          = (case filter (\<lambda>w. fst w = key \<and> fst (snd w) = n) (ws @ [w]) of
               [] \<Rightarrow> by_order_number t n
             | v # vs \<Rightarrow> Some (snd (snd (last (v # vs)))))" for n
  proof (cases "fst w = key \<and> fst (snd w) = n")
    case True
    then have "filter (\<lambda>w. fst w = key \<and> fst (snd w) = n) (ws @ [w])
        = filter (\<lambda>w. fst w = key \<and> fst (snd w) = n) ws @ [w]" by simp
    then show ?thesis using True n2[of n]
      by (cases "filter (\<lambda>w. fst w = key \<and> fst (snd w) = n) ws") simp_all
  next
    case False
    then have "filter (\<lambda>w. fst w = key \<and> fst (snd w) = n) (ws @ [w])
        = filter (\<lambda>w. fst w = key \<and> fst (snd w) = n) ws" by auto
    moreover from False have "by_order_number t2 n = by_order_number t1 n"
      using n2[of n] by auto
    ultimately show ?thesis using n1[of n] by (simp only:)
  qed
  with t2 t1(2) show ?case by simp
qed



lemma load_trips_row_Inr:
  assumes "load_trips_row services st row = Inr st'"
  obtains tid sid oid service_id where
    "row ''trip_id'' = Some tid" "extract_schedule_order_ids tid = Inr (Some (sid, oid))"
    "row ''service_id'' = Some service_id"
    "st' = foldl (register_trip tid sid oid) st (get_list services service_id)"
  using assms
  by (auto simp: load_trips_row_def bind_err_eq_Inr getitem_eq_Inr split: option.splits)


lemma load_stop_times_entry:
  assumes "load_stop_times f m trip_id_to_keys = Inr m'" "m key = Some t"
  shows "\<exists>t'. m' key = Some t' \<and> all t' = all t
           \<and> (\<forall>n. by_order_number t' n
                  = (case filter (\<lambda>w. fst w = key \<and> fst (snd w) = n)
                            (concat (map (stop_time_writes trip_id_to_keys) f)) of
                       [] \<Rightarrow> by_order_number t n
                     | v # vs \<Rightarrow> Some (snd (snd (last (v # vs))))))"
  using load_stop_times_fold[OF assms(1)]
    foldl_apply_write_Some[of m key t "concat (map (stop_time_writes trip_id_to_keys) f)",
      OF assms(2)]
  by simp

lemma load_stop_times_no_entry:
  assumes "load_stop_times f m trip_id_to_keys = Inr m'" "m key = None"
  shows "m' key = None"
  using load_stop_times_fold[OF assms(1)]
    foldl_apply_write_None[of m key "concat (map (stop_time_writes trip_id_to_keys) f)",
      OF assms(2)]
  by simp





section \<open>Operating dates of the stored keys\<close>

lemma load_services_row_Inr:
  assumes "load_services_row from_ymd_str rng services row = Inr services'"
  obtains service_id shift date_str start where
    "row ''service_id'' = Some service_id" "extract_start_date_offset service_id = Inr shift"
    "row ''date'' = Some date_str" "from_ymd_str date_str = Inr start"
    "services' = (if contains rng (start - shift)
                  then services(service_id \<mapsto>
                         get_list services service_id @ [(start - shift, start)])
                  else services)"
  using assms
  by (auto simp: load_services_row_def bind_err_eq_Inr getitem_eq_Inr add_days_def Let_def
      split: if_splits)

lemma load_services_pairs:
  assumes "load_services from_ymd_str f rng = Inr services"
    "services sid = Some ps" "(op, sd) \<in> set ps"
  shows "contains rng op
     \<and> (\<exists>shift. extract_start_date_offset sid = Inr shift \<and> op = sd - shift)
     \<and> (\<exists>row\<in>set f. row ''service_id'' = Some sid
            \<and> (\<exists>ds. row ''date'' = Some ds \<and> from_ymd_str ds = Inr sd))"
proof -
  let ?J = "\<lambda>sid op sd. contains rng op
     \<and> (\<exists>shift. extract_start_date_offset sid = Inr shift \<and> op = sd - shift)
     \<and> (\<exists>row\<in>set f. row ''service_id'' = Some sid
            \<and> (\<exists>ds. row ''date'' = Some ds \<and> from_ymd_str ds = Inr sd))"
  let ?Q = "\<lambda>s. \<forall>sid ps op sd. s sid = Some ps \<longrightarrow> (op, sd) \<in> set ps \<longrightarrow> ?J sid op sd"
  have "for_each (load_services_row from_ymd_str rng) f Map.empty = Inr services"
    using assms(1) by (simp add: load_services_def)
  then have "?Q services"
  proof (rule for_each_preserves)
    show "?Q Map.empty" by simp
  next
    fix r s s'
    assume r: "r \<in> set f" and q: "?Q s" and b: "load_services_row from_ymd_str rng s r = Inr s'"
    from b obtain service_id shift date_str start where
      h: "r ''service_id'' = Some service_id" "extract_start_date_offset service_id = Inr shift"
         "r ''date'' = Some date_str" "from_ymd_str date_str = Inr start"
      and s': "s' = (if contains rng (start - shift)
                  then s(service_id \<mapsto> get_list s service_id @ [(start - shift, start)])
                  else s)"
      by (rule load_services_row_Inr)
    show "?Q s'"
    proof (cases "contains rng (start - shift)")
      case False
      with s' q show ?thesis by simp
    next
      case True
      have new: "?J service_id (start - shift) start"
        using True h r by blast
      show ?thesis
      proof (intro allI impI)
        fix sid ps op sd
        assume l: "s' sid = Some ps" and m: "(op, sd) \<in> set ps"
        show "?J sid op sd"
        proof (cases "sid = service_id")
          case False
          with l s' True have "s sid = Some ps" by simp
          with q m show ?thesis by blast
        next
          case same: True
          with l s' True have ps: "ps = get_list s service_id @ [(start - shift, start)]"
            by simp
          show ?thesis
          proof (cases "(op, sd) = (start - shift, start)")
            case True
            with new same show ?thesis by simp
          next
            case False
            with m ps have i: "(op, sd) \<in> set (get_list s service_id)" by auto
            then obtain qs where "s service_id = Some qs" "(op, sd) \<in> set qs"
              by (cases "s service_id") (simp_all add: get_list_def)
            with q same show ?thesis by blast
          qed
        qed
      qed
    qed
  qed
  with assms(2,3) show ?thesis by blast
qed

lemma register_trip_all:
  assumes "\<forall>key t td. fst st key = Some t \<longrightarrow> td \<in> set (all t) \<longrightarrow> J key td"
    "J \<lparr>schedule_id = sid, order_id = oid, operating_date = fst p\<rparr>
       \<lparr>TripDate.trip_id = tid, TripDate.start_date = snd p\<rparr>"
  shows "\<forall>key t td. fst (register_trip tid sid oid st p) key = Some t
           \<longrightarrow> td \<in> set (all t) \<longrightarrow> J key td"
  using assms
  by (auto simp: register_trip_def Let_def split: option.splits if_splits)

lemma foldl_register_trip_all:
  assumes "\<forall>key t td. fst st key = Some t \<longrightarrow> td \<in> set (all t) \<longrightarrow> J key td"
    "\<forall>p\<in>set ps. J \<lparr>schedule_id = sid, order_id = oid, operating_date = fst p\<rparr>
       \<lparr>TripDate.trip_id = tid, TripDate.start_date = snd p\<rparr>"
  shows "\<forall>key t td. fst (foldl (register_trip tid sid oid) st ps) key = Some t
           \<longrightarrow> td \<in> set (all t) \<longrightarrow> J key td"
  using assms
proof (induction ps arbitrary: st)
  case Nil
  then show ?case by simp
next
  case (Cons p ps)
  have "\<forall>key t td. fst (register_trip tid sid oid st p) key = Some t
           \<longrightarrow> td \<in> set (all t) \<longrightarrow> J key td"
    using Cons.prems by (intro register_trip_all) simp_all
  then show ?case using Cons.prems(2) by (simp only: foldl_Cons) (rule Cons.IH, simp_all)
qed

lemma load_trips_all:
  assumes "load_trips f services = Inr st" "fst st key = Some t" "td \<in> set (all t)"
  shows "\<exists>row\<in>set f. \<exists>service_id.
           row ''trip_id'' = Some (TripDate.trip_id td) \<and> row ''service_id'' = Some service_id
           \<and> extract_schedule_order_ids (TripDate.trip_id td)
               = Inr (Some (schedule_id key, order_id key))
           \<and> (operating_date key, TripDate.start_date td) \<in> set (get_list services service_id)"
proof -
  let ?J = "\<lambda>key td. \<exists>row\<in>set f. \<exists>service_id.
           row ''trip_id'' = Some (TripDate.trip_id td) \<and> row ''service_id'' = Some service_id
           \<and> extract_schedule_order_ids (TripDate.trip_id td)
               = Inr (Some (schedule_id key, order_id key))
           \<and> (operating_date key, TripDate.start_date td) \<in> set (get_list services service_id)"
  let ?Q = "\<lambda>s. \<forall>key t td. fst s key = Some t \<longrightarrow> td \<in> set (all t) \<longrightarrow> ?J key td"
  have "for_each (load_trips_row services) f (Map.empty, Map.empty) = Inr st"
    using assms(1) by (simp add: load_trips_def)
  then have "?Q st"
  proof (rule for_each_preserves)
    show "?Q (Map.empty, Map.empty)" by simp
  next
    fix r s s'
    assume r: "r \<in> set f" and q: "?Q s" and b: "load_trips_row services s r = Inr s'"
    from b obtain tid sid oid service_id where
      h: "r ''trip_id'' = Some tid" "extract_schedule_order_ids tid = Inr (Some (sid, oid))"
         "r ''service_id'' = Some service_id"
      and s': "s' = foldl (register_trip tid sid oid) s (get_list services service_id)"
      by (rule load_trips_row_Inr)
    have "\<forall>p\<in>set (get_list services service_id).
            ?J \<lparr>schedule_id = sid, order_id = oid, operating_date = fst p\<rparr>
               \<lparr>TripDate.trip_id = tid, TripDate.start_date = snd p\<rparr>"
      using r h by auto
    with q show "?Q s'"
      unfolding s' by (rule foldl_register_trip_all)
  qed
  with assms(2,3) show ?thesis by blast
qed

text \<open>
  Claim C1. In the index that the build returns, every trip date stored for a key has a
  row in the trips table with its trip identifier, whose schedule and order numbers are
  those of the key, and a row in the calendar table that marks the service of that trip
  row active on the start date of the trip date. The operating date of the key is that
  start date minus the day shift extracted from the service identifier, and it lies in
  the range of valid operating dates of the index.
\<close>

theorem stored_operating_dates:
  "load_from_gtfs from_ymd_str arch = Inr idx \<and> by_order idx key = Some t \<and> td \<in> set (all t)
   \<longrightarrow> contains (valid_operating_dates idx) (operating_date key)
       \<and> (\<exists>trips_rows calendar_rows trip_row calendar_row service_id date_str shift.
             arch ''trips.txt'' = Some trips_rows \<and> trip_row \<in> set trips_rows
             \<and> trip_row ''trip_id'' = Some (TripDate.trip_id td)
             \<and> trip_row ''service_id'' = Some service_id
             \<and> extract_schedule_order_ids (TripDate.trip_id td)
                 = Inr (Some (schedule_id key, order_id key))
             \<and> arch ''calendar_dates.txt'' = Some calendar_rows
             \<and> calendar_row \<in> set calendar_rows
             \<and> calendar_row ''service_id'' = Some service_id
             \<and> calendar_row ''date'' = Some date_str
             \<and> from_ymd_str date_str = Inr (TripDate.start_date td)
             \<and> extract_start_date_offset service_id = Inr shift
             \<and> operating_date key = TripDate.start_date td - shift)"
proof (intro impI)
  assume a: "load_from_gtfs from_ymd_str arch = Inr idx \<and> by_order idx key = Some t
      \<and> td \<in> set (all t)"
  then have "load_from_gtfs from_ymd_str arch = Inr idx" by simp
  then obtain f1 dates f2 services f3 st f4 m where
    h: "arch ''feed_info.txt'' = Some f1" "load_feed_dates from_ymd_str f1 = Inr dates"
      "arch ''calendar_dates.txt'' = Some f2" "load_services from_ymd_str f2 dates = Inr services"
      "arch ''trips.txt'' = Some f3" "load_trips f3 services = Inr st"
      "arch ''stop_times.txt'' = Some f4" "load_stop_times f4 (fst st) (snd st) = Inr m"
      "idx = \<lparr>by_order = m, valid_operating_dates = dates\<rparr>"
    by (rule load_from_gtfs_Inr)
  from a h(9) have mk: "m key = Some t" by simp
  then obtain t0 where t0: "fst st key = Some t0"
    using load_stop_times_no_entry[of f4 "fst st" "snd st" m key, OF h(8)]
    by (cases "fst st key") auto
  from load_stop_times_entry[of f4 "fst st" "snd st" m key t0, OF h(8) t0] mk
  have "all t = all t0" by auto
  with a have "td \<in> set (all t0)" by simp
  from load_trips_all[OF h(6) t0 this] obtain trip_row service_id where
    tr: "trip_row \<in> set f3" "trip_row ''trip_id'' = Some (TripDate.trip_id td)"
      "trip_row ''service_id'' = Some service_id"
      "extract_schedule_order_ids (TripDate.trip_id td)
         = Inr (Some (schedule_id key, order_id key))"
      "(operating_date key, TripDate.start_date td) \<in> set (get_list services service_id)"
    by blast
  from tr(5) obtain ps where ps: "services service_id = Some ps"
    "(operating_date key, TripDate.start_date td) \<in> set ps"
    by (cases "services service_id") (simp_all add: get_list_def)
  from load_services_pairs[OF h(4) ps] obtain shift calendar_row date_str where
    c: "contains dates (operating_date key)"
      "extract_start_date_offset service_id = Inr shift"
      "operating_date key = TripDate.start_date td - shift"
      "calendar_row \<in> set f2" "calendar_row ''service_id'' = Some service_id"
      "calendar_row ''date'' = Some date_str"
      "from_ymd_str date_str = Inr (TripDate.start_date td)"
    by blast
  from c(1) h(9) have "contains (valid_operating_dates idx) (operating_date key)" by simp
  moreover from h(3,5) tr(1-4) c(2-7)
  have "\<exists>trips_rows calendar_rows trip_row calendar_row service_id date_str shift.
             arch ''trips.txt'' = Some trips_rows \<and> trip_row \<in> set trips_rows
             \<and> trip_row ''trip_id'' = Some (TripDate.trip_id td)
             \<and> trip_row ''service_id'' = Some service_id
             \<and> extract_schedule_order_ids (TripDate.trip_id td)
                 = Inr (Some (schedule_id key, order_id key))
             \<and> arch ''calendar_dates.txt'' = Some calendar_rows
             \<and> calendar_row \<in> set calendar_rows
             \<and> calendar_row ''service_id'' = Some service_id
             \<and> calendar_row ''date'' = Some date_str
             \<and> from_ymd_str date_str = Inr (TripDate.start_date td)
             \<and> extract_start_date_offset service_id = Inr shift
             \<and> operating_date key = TripDate.start_date td - shift"
    by blast
  ultimately show "contains (valid_operating_dates idx) (operating_date key)
       \<and> (\<exists>trips_rows calendar_rows trip_row calendar_row service_id date_str shift.
             arch ''trips.txt'' = Some trips_rows \<and> trip_row \<in> set trips_rows
             \<and> trip_row ''trip_id'' = Some (TripDate.trip_id td)
             \<and> trip_row ''service_id'' = Some service_id
             \<and> extract_schedule_order_ids (TripDate.trip_id td)
                 = Inr (Some (schedule_id key, order_id key))
             \<and> arch ''calendar_dates.txt'' = Some calendar_rows
             \<and> calendar_row \<in> set calendar_rows
             \<and> calendar_row ''service_id'' = Some service_id
             \<and> calendar_row ''date'' = Some date_str
             \<and> from_ymd_str date_str = Inr (TripDate.start_date td)
             \<and> extract_start_date_offset service_id = Inr shift
             \<and> operating_date key = TripDate.start_date td - shift)"
    by blast
qed

lemma sample_index_entry:
  "case load_from_gtfs from_ymd_digits sample_archive of
     Inl _ \<Rightarrow> False
   | Inr idx \<Rightarrow>
       (case by_order idx sample_key of
          None \<Rightarrow> False
        | Some t \<Rightarrow>
            all t = [sample_trip_date,
                     \<lparr>TripDate.trip_id = ''12345_6_BUS'',
                      TripDate.start_date = days_from_civil 2025 6 2\<rparr>])"
  by code_simp

theorem stored_operating_dates_witness:
  "\<exists>idx t. load_from_gtfs from_ymd_digits sample_archive = Inr idx
     \<and> by_order idx sample_key = Some t
     \<and> sample_trip_date \<in> set (all t)
     \<and> contains (valid_operating_dates idx) (operating_date sample_key)
     \<and> (\<exists>service_id shift. extract_start_date_offset service_id = Inr shift
           \<and> sample_archive ''calendar_dates.txt'' \<noteq> None
           \<and> operating_date sample_key = TripDate.start_date sample_trip_date - shift)
     \<and> extract_start_date_offset ''S-1D'' = Inr (- 1)
     \<and> operating_date sample_key = TripDate.start_date sample_trip_date - (- 1)"
proof -
  from sample_index_entry obtain idx t where
    l: "load_from_gtfs from_ymd_digits sample_archive = Inr idx"
    and k: "by_order idx sample_key = Some t"
    and a: "all t = [sample_trip_date,
                     \<lparr>TripDate.trip_id = ''12345_6_BUS'',
                      TripDate.start_date = days_from_civil 2025 6 2\<rparr>]"
    by (auto split: sum.splits option.splits)
  from a have m: "sample_trip_date \<in> set (all t)" by simp
  from stored_operating_dates[of from_ymd_digits sample_archive idx sample_key t sample_trip_date]
    l k m
  have c: "contains (valid_operating_dates idx) (operating_date sample_key)"
    and e: "\<exists>service_id shift. extract_start_date_offset service_id = Inr shift
           \<and> sample_archive ''calendar_dates.txt'' \<noteq> None
           \<and> operating_date sample_key = TripDate.start_date sample_trip_date - shift"
    by auto
  have s: "extract_start_date_offset ''S-1D'' = Inr (- 1)" by code_simp
  have d: "operating_date sample_key = TripDate.start_date sample_trip_date - (- 1)"
    by (simp add: sample_key_def sample_trip_date_def days_from_civil_def)
  from l k m c e s d show ?thesis by blast
qed

end
